theory Spec2Isabelle
  imports Complex_Main "HOL-Library.Sublist"
begin

section \<open>BookVision: text extraction, summarisation and sentiment\<close>

text \<open>
  A shallow embedding of \<^verbatim>\<open>utils/ocr.py\<close>, \<^verbatim>\<open>utils/summary.py\<close> and
  \<^verbatim>\<open>utils/sentiment.py\<close>. The libraries the program calls (OpenCV, PIL, Tesseract,
  PyMuPDF, the summarisation pipeline, TextBlob, VADER) are parameters of the model: each
  external call is a function that returns a value or raises. Every \<^verbatim>\<open>try\<close> block of
  the source is a computation of type \<open>exn + 'a\<close>, every \<^verbatim>\<open>except\<close> clause a handler,
  and every external call is written to a trace, so that what was called, and how often,
  can be stated. Logging is not modelled.
\<close>

subsection \<open>Python strings\<close>

text \<open>
  A \<^verbatim>\<open>str\<close> is a list of characters, one \<open>char\<close> per code point (the code points
  0 to 255). \<open>isspace\<close> is \<^verbatim>\<open>str.isspace\<close> on that range: the characters that
  \<^verbatim>\<open>strip()\<close> and \<^verbatim>\<open>split()\<close> treat as whitespace.
\<close>

definition whitespace :: "char list" where
  "whitespace =
     [CHR 0x09, CHR 0x0A, CHR 0x0B, CHR 0x0C, CHR 0x0D, CHR 0x1C, CHR 0x1D, CHR 0x1E,
      CHR 0x1F, CHR 0x20, CHR 0x85, CHR 0xA0]"

definition isspace :: "char \<Rightarrow> bool" where
  "isspace c = (c \<in> set whitespace)"

text \<open>\<^verbatim>\<open>s.strip()\<close>\<close>

definition str_strip :: "string \<Rightarrow> string" where
  "str_strip s = rev (dropWhile isspace (rev (dropWhile isspace s)))"

text \<open>\<^verbatim>\<open>s.split()\<close>: skip whitespace, take the next run of other characters, repeat.\<close>

function str_split :: "string \<Rightarrow> string list" where
  "str_split s =
     (case dropWhile isspace s of
        [] \<Rightarrow> []
      | c # cs \<Rightarrow>
          takeWhile (\<lambda>x. \<not> isspace x) (c # cs) #
          str_split (dropWhile (\<lambda>x. \<not> isspace x) (c # cs)))"
  by pat_completeness auto
termination
proof (relation "measure length")
  show "wf (measure length)" by simp
next
  fix s :: string and c cs
  assume a: "dropWhile isspace s = c # cs"
  have "\<not> isspace c"
    using a hd_dropWhile [of isspace s] by auto
  hence "length (dropWhile (\<lambda>x. \<not> isspace x) (c # cs)) \<le> length cs"
    by (simp add: length_dropWhile_le)
  moreover have "length (c # cs) \<le> length s"
    using a length_dropWhile_le [of isspace s] by simp
  ultimately show "(dropWhile (\<lambda>x. \<not> isspace x) (c # cs), s) \<in> measure length"
    by simp
qed

text \<open>\<^verbatim>\<open>sep.join(xs)\<close>\<close>

fun str_join :: "string \<Rightarrow> string list \<Rightarrow> string" where
  "str_join sep [] = []"
| "str_join sep [x] = x"
| "str_join sep (x # y # ys) = x @ sep @ str_join sep (y # ys)"

text \<open>\<^verbatim>\<open>s[i:j]\<close> for \<open>0 \<le> i \<le> j\<close>: both ends are clamped to the length.\<close>

definition slice :: "'a list \<Rightarrow> nat \<Rightarrow> nat \<Rightarrow> 'a list" where
  "slice s i j = take (j - i) (drop i s)"

text \<open>\<^verbatim>\<open>range(start, stop, step)\<close> for a positive step.\<close>

definition py_range :: "nat \<Rightarrow> nat \<Rightarrow> nat \<Rightarrow> nat list" where
  "py_range start stop step =
     map (\<lambda>k. start + k * step) [0..<(stop - start + step - 1) div step]"

text \<open>\<^verbatim>\<open>str(n)\<close> for a non-negative integer, as an f-string prints it.\<close>

definition digit :: "nat \<Rightarrow> char" where
  "digit d = ''0123456789'' ! d"

function str_nat :: "nat \<Rightarrow> string" where
  "str_nat n = (if n < 10 then [digit n] else str_nat (n div 10) @ [digit (n mod 10)])"
  by pat_completeness auto
termination
  by (relation "measure id") auto

declare str_split.simps [simp del]

declare str_nat.simps [simp del]

subsection \<open>Exceptions, external calls and traces\<close>

text \<open>
  The exceptions are the instances of \<^verbatim>\<open>Exception\<close>, told apart as far as the
  program's handlers do: \<^verbatim>\<open>pytesseract.TesseractError\<close>, the \<^verbatim>\<open>KeyError\<close> of a
  dictionary lookup, and every other one.
\<close>

datatype exn = TesseractError | KeyError | OtherException

datatype image_kind = Preprocessed | Unprocessed

text \<open>
  One event per external call. An OCR call records whether its image went through the
  preprocessing (grayscale and Otsu threshold) and the timeout it was given.
\<close>

datatype event =
    CvImread
  | ImageOpen
  | Preprocess
  | ImageToString image_kind "nat option"
  | FitzOpen
  | DocLen
  | LoadPage nat
  | GetText nat
  | RenderPage nat
  | SummarizerCall nat string
  | TextBlobPolarity
  | VaderPolarityScores

type_synonym 'a traced = "(exn + 'a) \<times> event list"

definition returns :: "'a \<Rightarrow> 'a traced" where
  "returns x = (Inr x, [])"

definition external :: "event \<Rightarrow> exn + 'a \<Rightarrow> 'a traced" where
  "external ev r = (r, [ev])"

text \<open>Sequencing: an exception of the first part skips the rest.\<close>

definition and_then :: "'a traced \<Rightarrow> ('a \<Rightarrow> 'b traced) \<Rightarrow> 'b traced" where
  "and_then m f =
     (case m of
        (Inl e, t) \<Rightarrow> (Inl e, t)
      | (Inr x, t) \<Rightarrow> (case f x of (r, t') \<Rightarrow> (r, t @ t')))"

text \<open>\<^verbatim>\<open>try: m except Exception as e: h e\<close>\<close>

definition except :: "'a traced \<Rightarrow> (exn \<Rightarrow> 'a traced) \<Rightarrow> 'a traced" where
  "except m h =
     (case m of
        (Inr x, t) \<Rightarrow> (Inr x, t)
      | (Inl e, t) \<Rightarrow> (case h e of (r, t') \<Rightarrow> (r, t @ t')))"

subsection \<open>\<^verbatim>\<open>utils/ocr.py\<close>\<close>

text \<open>
  The imaging and OCR libraries. \<open>preprocess_image\<close> is the sequence
  \<^verbatim>\<open>cv2.cvtColor\<close>, \<^verbatim>\<open>cv2.threshold\<close>, \<^verbatim>\<open>Image.fromarray\<close>;
  \<open>image_to_string\<close> takes the image, the language and the optional timeout.
\<close>

record ('cv, 'pil) ocr_libs =
  cv2_imread :: "string \<Rightarrow> exn + 'cv option"
  Image_open :: "string \<Rightarrow> exn + 'pil"
  preprocess_image :: "'cv \<Rightarrow> exn + 'pil"
  image_to_string :: "'pil \<Rightarrow> string \<Rightarrow> nat option \<Rightarrow> exn + string"

definition TESSERACT_LANG :: string where
  "TESSERACT_LANG = ''eng''"

text \<open>The body of the outer \<^verbatim>\<open>try\<close> of \<^verbatim>\<open>extract_text_from_image\<close> (lines 16 to 31).\<close>

definition image_try_block :: "('cv, 'pil) ocr_libs \<Rightarrow> string \<Rightarrow> string traced" where
  "image_try_block L image_path =
     and_then (external CvImread (cv2_imread L image_path)) (\<lambda>img_cv.
       case img_cv of
         None \<Rightarrow>
           and_then (external ImageOpen (Image_open L image_path)) (\<lambda>image.
             external (ImageToString Unprocessed None)
               (image_to_string L image TESSERACT_LANG None))
       | Some img \<Rightarrow>
           and_then (external Preprocess (preprocess_image L img)) (\<lambda>pil_img.
             external (ImageToString Preprocessed (Some 30))
               (image_to_string L pil_img TESSERACT_LANG (Some 30))))"

text \<open>The body of the inner \<^verbatim>\<open>try\<close> (lines 38 to 42).\<close>

definition image_retry_block :: "('cv, 'pil) ocr_libs \<Rightarrow> string \<Rightarrow> string traced" where
  "image_retry_block L image_path =
     and_then (external ImageOpen (Image_open L image_path)) (\<lambda>image.
       external (ImageToString Unprocessed (Some 30))
         (image_to_string L image TESSERACT_LANG (Some 30)))"

definition extract_text_from_image :: "('cv, 'pil) ocr_libs \<Rightarrow> string \<Rightarrow> string traced" where
  "extract_text_from_image L image_path =
     except (image_try_block L image_path) (\<lambda>e.
       case e of
         TesseractError \<Rightarrow> returns ''Error during Tesseract OCR processing.''
       | _ \<Rightarrow>
           except (image_retry_block L image_path) (\<lambda>pil_e.
             returns ''Error extracting text from image after multiple attempts.''))"

text \<open>
  PyMuPDF. \<open>render_page\<close> is the sequence \<^verbatim>\<open>page.get_pixmap(dpi=300)\<close>,
  \<^verbatim>\<open>pix.tobytes("png")\<close>, \<^verbatim>\<open>np.frombuffer\<close>, \<^verbatim>\<open>cv2.imdecode\<close>, whose result is
  \<open>None\<close> when the image cannot be decoded.
\<close>

record ('doc, 'page, 'cv) pdf_libs =
  fitz_open :: "string \<Rightarrow> exn + 'doc"
  doc_len :: "'doc \<Rightarrow> exn + nat"
  load_page :: "'doc \<Rightarrow> nat \<Rightarrow> exn + 'page"
  get_text :: "'page \<Rightarrow> exn + string"
  render_page :: "'page \<Rightarrow> exn + 'cv option"

text \<open>The body of the per-page \<^verbatim>\<open>try\<close> (lines 56 to 76): the text it appends.\<close>

definition page_try_block ::
  "('doc, 'page, 'cv) pdf_libs \<Rightarrow> ('cv, 'pil) ocr_libs \<Rightarrow> 'doc \<Rightarrow> nat \<Rightarrow> string traced" where
  "page_try_block P L doc page_num =
     and_then (external (LoadPage page_num) (load_page P doc page_num)) (\<lambda>page.
     and_then (external (GetText page_num) (get_text P page)) (\<lambda>page_text_content.
     and_then
       (if str_strip page_text_content = [] then
          and_then (external (RenderPage page_num) (render_page P page)) (\<lambda>img_cv.
            case img_cv of
              Some img \<Rightarrow>
                and_then (external Preprocess (preprocess_image L img)) (\<lambda>pil_img.
                  external (ImageToString Preprocessed (Some 60))
                    (image_to_string L pil_img TESSERACT_LANG (Some 60)))
            | None \<Rightarrow> returns ''[OCR failed for this page]'')
        else returns page_text_content)
       (\<lambda>page_text_content. returns (page_text_content @ ''\<newline>''))))"

definition page_error_marker :: "nat \<Rightarrow> string" where
  "page_error_marker page_num = ''[Error processing page '' @ str_nat (page_num + 1) @ '']''"

text \<open>One iteration of the loop: the text appended to \<^verbatim>\<open>full_text\<close>.\<close>

definition process_page ::
  "('doc, 'page, 'cv) pdf_libs \<Rightarrow> ('cv, 'pil) ocr_libs \<Rightarrow> 'doc \<Rightarrow> nat \<Rightarrow> string traced" where
  "process_page P L doc page_num =
     except (page_try_block P L doc page_num) (\<lambda>page_e.
       returns (page_error_marker page_num @ ''\<newline>''))"

text \<open>The loop over \<^verbatim>\<open>range(len(doc))\<close>, with the running \<^verbatim>\<open>full_text\<close>.\<close>

primrec pdf_loop ::
  "('doc, 'page, 'cv) pdf_libs \<Rightarrow> ('cv, 'pil) ocr_libs \<Rightarrow> 'doc \<Rightarrow> nat list \<Rightarrow> string \<Rightarrow>
   string traced" where
  "pdf_loop P L doc [] full_text = returns full_text"
| "pdf_loop P L doc (page_num # rest) full_text =
     and_then (process_page P L doc page_num) (\<lambda>appended.
       pdf_loop P L doc rest (full_text @ appended))"

definition pdf_try_block ::
  "('doc, 'page, 'cv) pdf_libs \<Rightarrow> ('cv, 'pil) ocr_libs \<Rightarrow> string \<Rightarrow> string traced" where
  "pdf_try_block P L pdf_path =
     and_then (external FitzOpen (fitz_open P pdf_path)) (\<lambda>doc.
     and_then (external DocLen (doc_len P doc)) (\<lambda>n.
     and_then (pdf_loop P L doc (py_range 0 n 1) '''') (\<lambda>full_text.
       returns (str_strip full_text))))"

definition extract_text_from_pdf ::
  "('doc, 'page, 'cv) pdf_libs \<Rightarrow> ('cv, 'pil) ocr_libs \<Rightarrow> string \<Rightarrow> string traced" where
  "extract_text_from_pdf P L pdf_path =
     except (pdf_try_block P L pdf_path) (\<lambda>e. returns ''Error extracting text from PDF.'')"

subsection \<open>\<^verbatim>\<open>utils/summary.py\<close>\<close>

text \<open>
  A Python dictionary with string keys and string values, as an association list;
  the pipeline returns a list of them.
\<close>

type_synonym py_dict = "(string \<times> string) list"

text \<open>
  The summarisation pipeline: the chunk, \<^verbatim>\<open>max_length\<close>, \<^verbatim>\<open>min_length\<close> and
  \<^verbatim>\<open>do_sample\<close>. The module-level \<^verbatim>\<open>summarizer\<close> is \<open>None\<close> when loading the model
  raised at import.
\<close>

type_synonym pipeline = "string \<Rightarrow> nat \<Rightarrow> nat \<Rightarrow> bool \<Rightarrow> exn + py_dict list"

definition MAX_CHUNK_SIZE_TOKENS :: nat where
  "MAX_CHUNK_SIZE_TOKENS = 1024"

definition SUMMARIZER_MAX_LENGTH :: nat where
  "SUMMARIZER_MAX_LENGTH = 150"

definition SUMMARIZER_MIN_LENGTH :: nat where
  "SUMMARIZER_MIN_LENGTH = 30"

text \<open>\<^verbatim>\<open>" ".join(text.split())\<close> (line 33)\<close>

definition normalize_text :: "string \<Rightarrow> string" where
  "normalize_text text = str_join '' '' (str_split text)"

text \<open>The list comprehension of lines 35 to 38.\<close>

definition char_chunks :: "string \<Rightarrow> string list" where
  "char_chunks normalized_text =
     map (\<lambda>i. slice normalized_text i (i + MAX_CHUNK_SIZE_TOKENS * 4))
       (py_range 0 (length normalized_text) (MAX_CHUNK_SIZE_TOKENS * 4))"

definition chunk_error_placeholder :: "nat \<Rightarrow> string" where
  "chunk_error_placeholder i = ''[Error summarizing part '' @ str_nat (i + 1) @ '']''"

text \<open>
  One iteration of the loop over \<^verbatim>\<open>enumerate(char_chunks)\<close> (lines 48 to 63): the new
  \<^verbatim>\<open>summary_parts\<close>.
\<close>

definition summarize_chunk :: "pipeline \<Rightarrow> nat \<Rightarrow> string \<Rightarrow> string list \<Rightarrow> string list traced" where
  "summarize_chunk summarizer i chunk summary_parts =
     except
       (and_then
          (external (SummarizerCall i chunk)
             (summarizer chunk SUMMARIZER_MAX_LENGTH SUMMARIZER_MIN_LENGTH False))
          (\<lambda>result.
             case result of
               [] \<Rightarrow> returns summary_parts
             | r0 # _ \<Rightarrow>
                 (if r0 = [] then returns summary_parts
                  else case map_of r0 ''summary_text'' of
                         None \<Rightarrow> returns summary_parts
                       | Some summary_text \<Rightarrow> returns (summary_parts @ [summary_text]))))
       (\<lambda>e. returns (summary_parts @ [chunk_error_placeholder i]))"

primrec summarize_loop ::
  "pipeline \<Rightarrow> (nat \<times> string) list \<Rightarrow> string list \<Rightarrow> string list traced" where
  "summarize_loop summarizer [] summary_parts = returns summary_parts"
| "summarize_loop summarizer (ic # rest) summary_parts =
     and_then (summarize_chunk summarizer (fst ic) (snd ic) summary_parts) (\<lambda>parts.
       summarize_loop summarizer rest parts)"

definition generate_summary :: "pipeline option \<Rightarrow> string \<Rightarrow> string traced" where
  "generate_summary summarizer_opt text =
     (case summarizer_opt of
        None \<Rightarrow> returns ''Summary generation service is currently unavailable.''
      | Some summarizer \<Rightarrow>
          if str_strip text = [] then returns ''No content to summarize.''
          else if char_chunks (normalize_text text) = []
          then returns ''Could not process text for summarization.''
          else
            and_then
              (summarize_loop summarizer (enumerate 0 (char_chunks (normalize_text text))) [])
              (\<lambda>summary_parts.
                 if str_strip (str_join ''\<newline>'' summary_parts) \<noteq> []
                 then returns (str_strip (str_join ''\<newline>'' summary_parts))
                 else returns ''Could not generate a summary for the provided text.''))"

subsection \<open>\<^verbatim>\<open>utils/sentiment.py\<close>\<close>

text \<open>
  The polarity scores are Python floats, that is IEEE 754 binary64 numbers. A finite
  double is represented by the real number it stands for (the two zeros are one value:
  they are equal in every comparison), next to the two infinities and NaN.
\<close>

datatype pyfloat = Finite real | PosInf | NegInf | NaN

text \<open>Rounding a real number to the nearest integer, ties to the even one.\<close>

definition round_half_even :: "real \<Rightarrow> int" where
  "round_half_even x =
     (if x - of_int \<lfloor>x\<rfloor> < 1 / 2 then \<lfloor>x\<rfloor>
      else if x - of_int \<lfloor>x\<rfloor> > 1 / 2 then \<lfloor>x\<rfloor> + 1
      else if even \<lfloor>x\<rfloor> then \<lfloor>x\<rfloor> else \<lfloor>x\<rfloor> + 1)"

definition pow2 :: "int \<Rightarrow> real" where
  "pow2 k = (if 0 \<le> k then 2 ^ nat k else 1 / 2 ^ nat (- k))"

text \<open>
  The binary exponent of a magnitude \<open>a\<close>: the \<open>e\<close> with \<open>pow2 e \<le> a < pow2 (e + 1)\<close>, found by
  doubling a magnitude below 1 and halving one from 2 on. The exponent of a double is at
  least -1022 (below, the numbers are subnormal and share the spacing of that exponent)
  and at most 1023: the search stops at -1022 and at 1024.
\<close>

primrec exponent_below :: "nat \<Rightarrow> real \<Rightarrow> int" where
  "exponent_below 0 a = 0"
| "exponent_below (Suc n) a = (if 1 \<le> a then 0 else exponent_below n (2 * a) - 1)"

primrec exponent_above :: "nat \<Rightarrow> real \<Rightarrow> int" where
  "exponent_above 0 a = 0"
| "exponent_above (Suc n) a = (if a < 2 then 0 else exponent_above n (a / 2) + 1)"

definition double_exponent :: "real \<Rightarrow> int" where
  "double_exponent a = (if a < 1 then exponent_below 1022 a else exponent_above 1024 a)"

text \<open>
  The double nearest to a real number, ties to the even significand (the rounding of
  every float operation and of a float literal): doubles of exponent \<open>e\<close> are the multiples
  of \<open>pow2 (e - 52)\<close>, and a result of magnitude \<open>pow2 1024\<close> or more is an infinity.
\<close>

definition round_double :: "real \<Rightarrow> pyfloat" where
  "round_double x =
     (let ulp = pow2 (double_exponent \<bar>x\<bar> - 52);
          y = ulp * of_int (round_half_even (x / ulp))
      in if 2 ^ 1024 \<le> y then PosInf
         else if y \<le> - (2 ^ 1024) then NegInf
         else Finite y)"

text \<open>\<^verbatim>\<open>x + y\<close> on floats.\<close>

fun float_add :: "pyfloat \<Rightarrow> pyfloat \<Rightarrow> pyfloat" where
  "float_add (Finite a) (Finite b) = round_double (a + b)"
| "float_add NaN y = NaN"
| "float_add x NaN = NaN"
| "float_add PosInf NegInf = NaN"
| "float_add NegInf PosInf = NaN"
| "float_add PosInf y = PosInf"
| "float_add x PosInf = PosInf"
| "float_add NegInf y = NegInf"
| "float_add x NegInf = NegInf"

text \<open>\<^verbatim>\<open>x / 2\<close> on a float (the integer 2 is converted to the double 2.0).\<close>

fun float_div_2 :: "pyfloat \<Rightarrow> pyfloat" where
  "float_div_2 (Finite a) = round_double (a / 2)"
| "float_div_2 PosInf = PosInf"
| "float_div_2 NegInf = NegInf"
| "float_div_2 NaN = NaN"

text \<open>\<^verbatim>\<open>-x\<close> on a float.\<close>

fun float_neg :: "pyfloat \<Rightarrow> pyfloat" where
  "float_neg (Finite a) = Finite (- a)"
| "float_neg PosInf = NegInf"
| "float_neg NegInf = PosInf"
| "float_neg NaN = NaN"

text \<open>\<^verbatim>\<open>x <= y\<close> and \<^verbatim>\<open>x >= y\<close> on floats: every comparison with NaN is false.\<close>

fun float_le :: "pyfloat \<Rightarrow> pyfloat \<Rightarrow> bool" where
  "float_le NaN y = False"
| "float_le x NaN = False"
| "float_le (Finite a) (Finite b) = (a \<le> b)"
| "float_le NegInf y = True"
| "float_le x PosInf = True"
| "float_le x y = False"

definition float_ge :: "pyfloat \<Rightarrow> pyfloat \<Rightarrow> bool" where
  "float_ge x y = float_le y x"

text \<open>The float literal \<^verbatim>\<open>0.05\<close>: the double nearest to 5/100.\<close>

definition literal_0_05 :: pyfloat where
  "literal_0_05 = round_double (5 / 100)"

text \<open>
  The two scorers. \<open>analyzer\<close> is \<open>None\<close> when constructing the VADER analyser raised at
  import; its \<^verbatim>\<open>polarity_scores\<close> returns a dictionary from which the program reads the
  key \<^verbatim>\<open>compound\<close>.
\<close>

record sentiment_libs =
  textblob_polarity :: "string \<Rightarrow> exn + pyfloat"
  analyzer :: "(string \<Rightarrow> exn + (string \<times> pyfloat) list) option"

definition SENTIMENT_POSITIVE :: string where
  "SENTIMENT_POSITIVE = ''Positive''"

definition SENTIMENT_NEGATIVE :: string where
  "SENTIMENT_NEGATIVE = ''Negative''"

definition SENTIMENT_NEUTRAL :: string where
  "SENTIMENT_NEUTRAL = ''Neutral''"

text \<open>\<^verbatim>\<open>d[k]\<close>, which raises \<^verbatim>\<open>KeyError\<close> on a missing key.\<close>

definition dict_get :: "('k \<times> 'v) list \<Rightarrow> 'k \<Rightarrow> 'v traced" where
  "dict_get d k = (case map_of d k of None \<Rightarrow> (Inl KeyError, []) | Some v \<Rightarrow> returns v)"

definition get_sentiment :: "sentiment_libs \<Rightarrow> string \<Rightarrow> string traced" where
  "get_sentiment S text =
     (if str_strip text = [] then returns SENTIMENT_NEUTRAL
      else case analyzer S of
        None \<Rightarrow>
          except
            (and_then (external TextBlobPolarity (textblob_polarity S text)) (\<lambda>blob_sentiment.
               if float_ge blob_sentiment literal_0_05 then returns SENTIMENT_POSITIVE
               else if float_le blob_sentiment (float_neg literal_0_05)
               then returns SENTIMENT_NEGATIVE
               else returns SENTIMENT_NEUTRAL))
            (\<lambda>e_tb. returns ''Error in sentiment analysis'')
      | Some polarity_scores \<Rightarrow>
          except
            (and_then (external TextBlobPolarity (textblob_polarity S text)) (\<lambda>blob_sentiment.
             and_then (external VaderPolarityScores (polarity_scores text)) (\<lambda>vader_scores.
             and_then (dict_get vader_scores ''compound'') (\<lambda>vader_compound_sentiment.
             and_then
               (returns (float_div_2 (float_add blob_sentiment vader_compound_sentiment)))
               (\<lambda>avg_sentiment.
               if float_ge avg_sentiment literal_0_05 then returns SENTIMENT_POSITIVE
               else if float_le avg_sentiment (float_neg literal_0_05)
               then returns SENTIMENT_NEGATIVE
               else returns SENTIMENT_NEUTRAL)))))
            (\<lambda>e. returns ''Error in sentiment analysis''))"

subsection \<open>Notions used to state the properties\<close>

text \<open>
  The text a page resolves to, in the words of the design: the embedded text when it is
  not blank; otherwise the OCR text of the rendered and preprocessed page, or the fixed
  text when the rendered page cannot be decoded; and the error marker when any of these
  steps raises.
\<close>

definition resolved_page_text ::
  "('doc, 'page, 'cv) pdf_libs \<Rightarrow> ('cv, 'pil) ocr_libs \<Rightarrow> 'doc \<Rightarrow> nat \<Rightarrow> string" where
  "resolved_page_text P L doc n =
     (case load_page P doc n of
        Inl e \<Rightarrow> page_error_marker n
      | Inr page \<Rightarrow>
          (case get_text P page of
             Inl e \<Rightarrow> page_error_marker n
           | Inr embedded \<Rightarrow>
               if str_strip embedded \<noteq> [] then embedded
               else
                 (case render_page P page of
                    Inl e \<Rightarrow> page_error_marker n
                  | Inr None \<Rightarrow> ''[OCR failed for this page]''
                  | Inr (Some img) \<Rightarrow>
                      (case preprocess_image L img of
                         Inl e \<Rightarrow> page_error_marker n
                       | Inr pil_img \<Rightarrow>
                           (case image_to_string L pil_img TESSERACT_LANG (Some 60) of
                              Inl e \<Rightarrow> page_error_marker n
                            | Inr ocr_text \<Rightarrow> ocr_text)))))"

text \<open>The OCR calls of a trace, and those on one kind of image.\<close>

definition is_ocr :: "event \<Rightarrow> bool" where
  "is_ocr ev = (case ev of ImageToString k t \<Rightarrow> True | _ \<Rightarrow> False)"

definition ocr_calls :: "event list \<Rightarrow> event list" where
  "ocr_calls t = filter is_ocr t"

definition is_ocr_on :: "image_kind \<Rightarrow> event \<Rightarrow> bool" where
  "is_ocr_on kind ev = (case ev of ImageToString k t \<Rightarrow> k = kind | _ \<Rightarrow> False)"

definition ocr_calls_on :: "image_kind \<Rightarrow> event list \<Rightarrow> event list" where
  "ocr_calls_on kind t = filter (is_ocr_on kind) t"

text \<open>
  Whitespace normalisation in the words of the design: every run of whitespace collapsed
  to a single space.
\<close>

function collapse_whitespace :: "string \<Rightarrow> string" where
  "collapse_whitespace [] = []"
| "collapse_whitespace (c # cs) =
     (if isspace c then CHR '' '' # collapse_whitespace (dropWhile isspace cs)
      else c # collapse_whitespace cs)"
  by pat_completeness auto
termination
  by (relation "measure length") (auto simp: length_dropWhile_le less_Suc_eq_le)

text \<open>
  What the call on one chunk adds to \<^verbatim>\<open>summary_parts\<close>: the placeholder when the call
  raises, the summary text when the first dictionary of the result has one, and nothing
  otherwise.
\<close>

definition chunk_contribution :: "pipeline \<Rightarrow> nat \<Rightarrow> string \<Rightarrow> string list" where
  "chunk_contribution summarizer i chunk =
     (case summarizer chunk SUMMARIZER_MAX_LENGTH SUMMARIZER_MIN_LENGTH False of
        Inl e \<Rightarrow> [chunk_error_placeholder i]
      | Inr [] \<Rightarrow> []
      | Inr (r0 # rs) \<Rightarrow>
          (if r0 = [] then []
           else case map_of r0 ''summary_text'' of None \<Rightarrow> [] | Some summary_text \<Rightarrow> [summary_text]))"

text \<open>The number a string of decimal digits stands for.\<close>

definition decimal_value :: "string \<Rightarrow> nat" where
  "decimal_value s = foldl (\<lambda>a c. 10 * a + (of_char c - 48)) 0 s"

subsection \<open>Sample libraries\<close>

text \<open>
  Concrete libraries on which the properties are evaluated. An image is represented by
  its kind; the OCR engine is a function of the kind and the timeout.
\<close>

definition scripted_ocr_libs ::
  "exn + unit option \<Rightarrow> exn + image_kind \<Rightarrow> (image_kind \<Rightarrow> nat option \<Rightarrow> exn + string) \<Rightarrow>
   (unit, image_kind) ocr_libs" where
  "scripted_ocr_libs imread_result open_result ocr =
     \<lparr>cv2_imread = (\<lambda>path. imread_result),
      Image_open = (\<lambda>path. open_result),
      preprocess_image = (\<lambda>img. Inr Preprocessed),
      image_to_string = (\<lambda>im lang timeout. ocr im timeout)\<rparr>"

definition ocr_reads_hello :: "image_kind \<Rightarrow> nat option \<Rightarrow> exn + string" where
  "ocr_reads_hello kind timeout = Inr ''hello''"

definition ocr_engine_error :: "image_kind \<Rightarrow> nat option \<Rightarrow> exn + string" where
  "ocr_engine_error kind timeout = Inl TesseractError"

definition ocr_always_times_out :: "image_kind \<Rightarrow> nat option \<Rightarrow> exn + string" where
  "ocr_always_times_out kind timeout = Inl OtherException"

definition ocr_times_out_when_preprocessed :: "image_kind \<Rightarrow> nat option \<Rightarrow> exn + string" where
  "ocr_times_out_when_preprocessed kind timeout =
     (case kind of Preprocessed \<Rightarrow> Inl OtherException | Unprocessed \<Rightarrow> Inr ''hello'')"

definition ocr_fails_without_timeout :: "image_kind \<Rightarrow> nat option \<Rightarrow> exn + string" where
  "ocr_fails_without_timeout kind timeout =
     (case timeout of None \<Rightarrow> Inl OtherException | Some t \<Rightarrow> Inr ''hello'')"

text \<open>The same libraries with a preprocessing (colour conversion or threshold) that raises.\<close>

definition preprocessing_raises :: "(unit, image_kind) ocr_libs \<Rightarrow> (unit, image_kind) ocr_libs" where
  "preprocessing_raises L = L\<lparr>preprocess_image := (\<lambda>img. Inl OtherException)\<rparr>"

text \<open>
  A document is the list of its pages: a page with embedded text, a scanned page, a
  page whose rendering cannot be decoded, and a page that cannot be loaded.
\<close>

datatype sample_page = TextPage string | ScannedPage | UndecodablePage | CorruptPage

definition sample_pdf_libs ::
  "exn + sample_page list \<Rightarrow> (sample_page list, sample_page, unit) pdf_libs" where
  "sample_pdf_libs opened =
     \<lparr>fitz_open = (\<lambda>path. opened),
      doc_len = (\<lambda>doc. Inr (length doc)),
      load_page = (\<lambda>doc n.
        if n < length doc
        then (case doc ! n of CorruptPage \<Rightarrow> Inl OtherException | pg \<Rightarrow> Inr pg)
        else Inl OtherException),
      get_text = (\<lambda>pg. case pg of TextPage t \<Rightarrow> Inr t | _ \<Rightarrow> Inr ''''),
      render_page = (\<lambda>pg. case pg of UndecodablePage \<Rightarrow> Inr None | _ \<Rightarrow> Inr (Some ()))\<rparr>"

text \<open>
  Scorers with fixed answers, each the double nearest to the number given; \<open>None\<close> for an
  analyser that failed to initialise.
\<close>

definition scripted_sentiment_libs ::
  "exn + real \<Rightarrow> (exn + (string \<times> real) list) option \<Rightarrow> sentiment_libs" where
  "scripted_sentiment_libs blob vader =
     \<lparr>textblob_polarity = (\<lambda>text. map_sum id round_double blob),
      analyzer =
        map_option (\<lambda>scores text. map_sum id (map (apsnd round_double)) scores) vader\<rparr>"

text \<open>
  Summarisation pipelines: one that always raises, one that returns a fixed summary, one
  whose result has no summary text, and one that raises on the chunk \<open>''b''\<close> only.
\<close>

definition pipeline_raises :: pipeline where
  "pipeline_raises chunk max_length min_length do_sample = Inl OtherException"

definition pipeline_short :: pipeline where
  "pipeline_short chunk max_length min_length do_sample = Inr [[(''summary_text'', ''short'')]]"

definition pipeline_no_summary :: pipeline where
  "pipeline_no_summary chunk max_length min_length do_sample = Inr [[(''score'', ''1'')]]"

definition pipeline_raises_on_b :: pipeline where
  "pipeline_raises_on_b chunk max_length min_length do_sample =
     (if chunk = ''b'' then Inl OtherException else Inr [[(''summary_text'', ''short'')]])"

text \<open>A text of 4097 characters: 4096 times \<open>a\<close>, then \<open>b\<close>.\<close>

definition long_text :: string where
  "long_text = replicate 4096 CHR ''a'' @ ''b''"

section \<open>Properties\<close>

subsection \<open>Sequencing and handlers\<close>

lemma and_then_Inl [simp]: "and_then (Inl e, t) f = (Inl e, t)"
  by (simp add: and_then_def)

lemma and_then_Inr [simp]: "and_then (Inr x, t) f = (fst (f x), t @ snd (f x))"
  by (simp add: and_then_def split: prod.splits)

lemma and_then_returns [simp]: "and_then (returns x) f = f x"
  by (simp add: returns_def)

lemma except_Inr [simp]: "except (Inr x, t) h = (Inr x, t)"
  by (simp add: except_def)

lemma except_Inl [simp]: "except (Inl e, t) h = (fst (h e), t @ snd (h e))"
  by (simp add: except_def split: prod.splits)

lemma fst_returns [simp]: "fst (returns x) = Inr x"
  by (simp add: returns_def)

lemma snd_returns [simp]: "snd (returns x) = []"
  by (simp add: returns_def)

lemma external_Inl [simp]: "external ev (Inl e) = (Inl e, [ev])"
  by (simp add: external_def)

lemma external_Inr [simp]: "external ev (Inr x) = (Inr x, [ev])"
  by (simp add: external_def)

text \<open>A handler that always returns makes the whole \<^verbatim>\<open>try\<close> statement return.\<close>

lemma except_total:
  assumes "\<And>e. \<exists>y. fst (h e) = Inr y"
  shows "\<exists>y. fst (except m h) = Inr y"
proof (cases m)
  case (Pair r t)
  then show ?thesis using assms by (cases r) auto
qed

subsection \<open>Image OCR\<close>

lemma image_retry_block_cases:
  "image_retry_block L p =
     (case Image_open L p of
        Inl e \<Rightarrow> (Inl e, [ImageOpen])
      | Inr im \<Rightarrow>
          (image_to_string L im TESSERACT_LANG (Some 30),
           [ImageOpen, ImageToString Unprocessed (Some 30)]))"
  by (simp add: image_retry_block_def external_def split: sum.splits)

lemma image_try_block_cases:
  "image_try_block L p =
     (case cv2_imread L p of
        Inl e \<Rightarrow> (Inl e, [CvImread])
      | Inr None \<Rightarrow>
          (case Image_open L p of
             Inl e \<Rightarrow> (Inl e, [CvImread, ImageOpen])
           | Inr im \<Rightarrow>
               (image_to_string L im TESSERACT_LANG None,
                [CvImread, ImageOpen, ImageToString Unprocessed None]))
      | Inr (Some img) \<Rightarrow>
          (case preprocess_image L img of
             Inl e \<Rightarrow> (Inl e, [CvImread, Preprocess])
           | Inr pil_img \<Rightarrow>
               (image_to_string L pil_img TESSERACT_LANG (Some 30),
                [CvImread, Preprocess, ImageToString Preprocessed (Some 30)])))"
  by (simp add: image_try_block_def external_def split: sum.splits option.splits)

lemma extract_text_from_image_returns:
  "\<exists>s. fst (extract_text_from_image L p) = Inr s"
  unfolding extract_text_from_image_def
proof (rule except_total)
  fix e
  show "\<exists>y. fst (case e of
          TesseractError \<Rightarrow> returns ''Error during Tesseract OCR processing.''
        | _ \<Rightarrow> except (image_retry_block L p)
             (\<lambda>pil_e. returns ''Error extracting text from image after multiple attempts.'')) = Inr y"
    by (cases e) (auto intro: except_total)
qed

text \<open>
  What the handlers of lines 32 to 45 make of the outcome of the outer \<^verbatim>\<open>try\<close>
  block.
\<close>

lemma image_returned:
  assumes "image_try_block L p = (Inr s, tr)"
  shows "extract_text_from_image L p = (Inr s, tr)"
  using assms by (simp add: extract_text_from_image_def)

lemma image_engine_error:
  assumes "image_try_block L p = (Inl TesseractError, tr)"
  shows "extract_text_from_image L p = (Inr ''Error during Tesseract OCR processing.'', tr)"
  using assms by (simp add: extract_text_from_image_def)

lemma image_other_error:
  assumes "image_try_block L p = (Inl e, tr)" and "e \<noteq> TesseractError"
  shows "extract_text_from_image L p =
     (case Image_open L p of
        Inl open_e \<Rightarrow>
          (Inr ''Error extracting text from image after multiple attempts.'', tr @ [ImageOpen])
      | Inr im \<Rightarrow>
          (case image_to_string L im TESSERACT_LANG (Some 30) of
             Inl retry_e \<Rightarrow>
               (Inr ''Error extracting text from image after multiple attempts.'',
                tr @ [ImageOpen, ImageToString Unprocessed (Some 30)])
           | Inr s \<Rightarrow> (Inr s, tr @ [ImageOpen, ImageToString Unprocessed (Some 30)])))"
  using assms
  by (cases e)
     (simp_all add: extract_text_from_image_def image_retry_block_cases split: sum.splits)

text \<open>
  Claim C3. \<^verbatim>\<open>extract_text_from_image\<close> always returns a string: no exception leaves
  it. The first attempt is: read the file with OpenCV; when OpenCV returns nothing, open
  the file with the generic loader and run OCR on that image without a timeout (the
  basic tier); otherwise preprocess the image and run OCR on it with a timeout of 30
  seconds. Whatever call of the first attempt ends it: when it returns a text, that
  text is the result and nothing more is called; when it raises the engine's
  \<^verbatim>\<open>TesseractError\<close>, the result is the fixed string and nothing more is called; when
  it raises any other exception, the file is opened again with the generic loader and
  OCR runs on that image with a timeout of 30 seconds, the text of the retry is the
  result, and when opening or the second OCR call raises, the result is the fixed
  "after multiple attempts" string. The last part of the statement spells this out for
  the OCR call on the preprocessed image.
\<close>

theorem extract_text_from_image_tiers:
  "(\<exists>s. fst (extract_text_from_image L p) = Inr s) \<and>
   (let first_attempt =
      (case cv2_imread L p of
         Inl e \<Rightarrow> (Inl e, [CvImread])
       | Inr None \<Rightarrow>
           (case Image_open L p of
              Inl e \<Rightarrow> (Inl e, [CvImread, ImageOpen])
            | Inr im \<Rightarrow>
                (image_to_string L im TESSERACT_LANG None,
                 [CvImread, ImageOpen, ImageToString Unprocessed None]))
       | Inr (Some img) \<Rightarrow>
           (case preprocess_image L img of
              Inl e \<Rightarrow> (Inl e, [CvImread, Preprocess])
            | Inr pil_img \<Rightarrow>
                (image_to_string L pil_img TESSERACT_LANG (Some 30),
                 [CvImread, Preprocess, ImageToString Preprocessed (Some 30)])))
    in
      (first_attempt = (Inr first_text, tr) \<longrightarrow>
         extract_text_from_image L p = (Inr first_text, tr)) \<and>
      (first_attempt = (Inl TesseractError, tr) \<longrightarrow>
         extract_text_from_image L p = (Inr ''Error during Tesseract OCR processing.'', tr)) \<and>
      (first_attempt = (Inl first_e, tr) \<longrightarrow> first_e \<noteq> TesseractError \<longrightarrow>
         (Image_open L p = Inl open_e \<longrightarrow>
            extract_text_from_image L p =
              (Inr ''Error extracting text from image after multiple attempts.'',
               tr @ [ImageOpen])) \<and>
         (Image_open L p = Inr im \<longrightarrow>
            (image_to_string L im TESSERACT_LANG (Some 30) = Inr retry_text \<longrightarrow>
               extract_text_from_image L p =
                 (Inr retry_text, tr @ [ImageOpen, ImageToString Unprocessed (Some 30)])) \<and>
            (image_to_string L im TESSERACT_LANG (Some 30) = Inl retry_e \<longrightarrow>
               extract_text_from_image L p =
                 (Inr ''Error extracting text from image after multiple attempts.'',
                  tr @ [ImageOpen, ImageToString Unprocessed (Some 30)]))))) \<and>
   (cv2_imread L p = Inr (Some img) \<longrightarrow> preprocess_image L img = Inr pil \<longrightarrow>
      (image_to_string L pil TESSERACT_LANG (Some 30) = Inr pre_text \<longrightarrow>
         extract_text_from_image L p =
           (Inr pre_text, [CvImread, Preprocess, ImageToString Preprocessed (Some 30)])) \<and>
      (image_to_string L pil TESSERACT_LANG (Some 30) = Inl TesseractError \<longrightarrow>
         extract_text_from_image L p =
           (Inr ''Error during Tesseract OCR processing.'',
            [CvImread, Preprocess, ImageToString Preprocessed (Some 30)])) \<and>
      (image_to_string L pil TESSERACT_LANG (Some 30) = Inl e \<longrightarrow> e \<noteq> TesseractError \<longrightarrow>
         (Image_open L p = Inl open_e \<longrightarrow>
            extract_text_from_image L p =
              (Inr ''Error extracting text from image after multiple attempts.'',
               [CvImread, Preprocess, ImageToString Preprocessed (Some 30), ImageOpen])) \<and>
         (Image_open L p = Inr im \<longrightarrow>
            (image_to_string L im TESSERACT_LANG (Some 30) = Inr retry_text \<longrightarrow>
               extract_text_from_image L p =
                 (Inr retry_text,
                  [CvImread, Preprocess, ImageToString Preprocessed (Some 30), ImageOpen,
                   ImageToString Unprocessed (Some 30)])) \<and>
            (image_to_string L im TESSERACT_LANG (Some 30) = Inl retry_e \<longrightarrow>
               extract_text_from_image L p =
                 (Inr ''Error extracting text from image after multiple attempts.'',
                  [CvImread, Preprocess, ImageToString Preprocessed (Some 30), ImageOpen,
                   ImageToString Unprocessed (Some 30)])))))"
proof (intro conjI)
  show "\<exists>s. fst (extract_text_from_image L p) = Inr s"
    by (rule extract_text_from_image_returns)
next
  have "(image_try_block L p = (Inr first_text, tr) \<longrightarrow>
        extract_text_from_image L p = (Inr first_text, tr)) \<and>
      (image_try_block L p = (Inl TesseractError, tr) \<longrightarrow>
         extract_text_from_image L p = (Inr ''Error during Tesseract OCR processing.'', tr)) \<and>
      (image_try_block L p = (Inl first_e, tr) \<longrightarrow> first_e \<noteq> TesseractError \<longrightarrow>
         (Image_open L p = Inl open_e \<longrightarrow>
            extract_text_from_image L p =
              (Inr ''Error extracting text from image after multiple attempts.'',
               tr @ [ImageOpen])) \<and>
         (Image_open L p = Inr im \<longrightarrow>
            (image_to_string L im TESSERACT_LANG (Some 30) = Inr retry_text \<longrightarrow>
               extract_text_from_image L p =
                 (Inr retry_text, tr @ [ImageOpen, ImageToString Unprocessed (Some 30)])) \<and>
            (image_to_string L im TESSERACT_LANG (Some 30) = Inl retry_e \<longrightarrow>
               extract_text_from_image L p =
                 (Inr ''Error extracting text from image after multiple attempts.'',
                  tr @ [ImageOpen, ImageToString Unprocessed (Some 30)]))))"
  proof (intro conjI impI)
    assume "image_try_block L p = (Inr first_text, tr)"
    then show "extract_text_from_image L p = (Inr first_text, tr)"
      by (rule image_returned)
  next
    assume "image_try_block L p = (Inl TesseractError, tr)"
    then show "extract_text_from_image L p =
        (Inr ''Error during Tesseract OCR processing.'', tr)"
      by (rule image_engine_error)
  next
    assume "image_try_block L p = (Inl first_e, tr)" "first_e \<noteq> TesseractError"
      "Image_open L p = Inl open_e"
    then show "extract_text_from_image L p =
        (Inr ''Error extracting text from image after multiple attempts.'', tr @ [ImageOpen])"
      by (simp add: image_other_error)
  next
    assume "image_try_block L p = (Inl first_e, tr)" "first_e \<noteq> TesseractError"
      "Image_open L p = Inr im" "image_to_string L im TESSERACT_LANG (Some 30) = Inr retry_text"
    then show "extract_text_from_image L p =
        (Inr retry_text, tr @ [ImageOpen, ImageToString Unprocessed (Some 30)])"
      by (simp add: image_other_error)
  next
    assume "image_try_block L p = (Inl first_e, tr)" "first_e \<noteq> TesseractError"
      "Image_open L p = Inr im" "image_to_string L im TESSERACT_LANG (Some 30) = Inl retry_e"
    then show "extract_text_from_image L p =
        (Inr ''Error extracting text from image after multiple attempts.'',
         tr @ [ImageOpen, ImageToString Unprocessed (Some 30)])"
      by (simp add: image_other_error)
  qed
  then show "let first_attempt =
      (case cv2_imread L p of
         Inl e \<Rightarrow> (Inl e, [CvImread])
       | Inr None \<Rightarrow>
           (case Image_open L p of
              Inl e \<Rightarrow> (Inl e, [CvImread, ImageOpen])
            | Inr im \<Rightarrow>
                (image_to_string L im TESSERACT_LANG None,
                 [CvImread, ImageOpen, ImageToString Unprocessed None]))
       | Inr (Some img) \<Rightarrow>
           (case preprocess_image L img of
              Inl e \<Rightarrow> (Inl e, [CvImread, Preprocess])
            | Inr pil_img \<Rightarrow>
                (image_to_string L pil_img TESSERACT_LANG (Some 30),
                 [CvImread, Preprocess, ImageToString Preprocessed (Some 30)])))
    in
      (first_attempt = (Inr first_text, tr) \<longrightarrow>
         extract_text_from_image L p = (Inr first_text, tr)) \<and>
      (first_attempt = (Inl TesseractError, tr) \<longrightarrow>
         extract_text_from_image L p = (Inr ''Error during Tesseract OCR processing.'', tr)) \<and>
      (first_attempt = (Inl first_e, tr) \<longrightarrow> first_e \<noteq> TesseractError \<longrightarrow>
         (Image_open L p = Inl open_e \<longrightarrow>
            extract_text_from_image L p =
              (Inr ''Error extracting text from image after multiple attempts.'',
               tr @ [ImageOpen])) \<and>
         (Image_open L p = Inr im \<longrightarrow>
            (image_to_string L im TESSERACT_LANG (Some 30) = Inr retry_text \<longrightarrow>
               extract_text_from_image L p =
                 (Inr retry_text, tr @ [ImageOpen, ImageToString Unprocessed (Some 30)])) \<and>
            (image_to_string L im TESSERACT_LANG (Some 30) = Inl retry_e \<longrightarrow>
               extract_text_from_image L p =
                 (Inr ''Error extracting text from image after multiple attempts.'',
                  tr @ [ImageOpen, ImageToString Unprocessed (Some 30)]))))"
    unfolding Let_def image_try_block_cases [symmetric] .
next
  show "cv2_imread L p = Inr (Some img) \<longrightarrow> preprocess_image L img = Inr pil \<longrightarrow>
      (image_to_string L pil TESSERACT_LANG (Some 30) = Inr pre_text \<longrightarrow>
         extract_text_from_image L p =
           (Inr pre_text, [CvImread, Preprocess, ImageToString Preprocessed (Some 30)])) \<and>
      (image_to_string L pil TESSERACT_LANG (Some 30) = Inl TesseractError \<longrightarrow>
         extract_text_from_image L p =
           (Inr ''Error during Tesseract OCR processing.'',
            [CvImread, Preprocess, ImageToString Preprocessed (Some 30)])) \<and>
      (image_to_string L pil TESSERACT_LANG (Some 30) = Inl e \<longrightarrow> e \<noteq> TesseractError \<longrightarrow>
         (Image_open L p = Inl open_e \<longrightarrow>
            extract_text_from_image L p =
              (Inr ''Error extracting text from image after multiple attempts.'',
               [CvImread, Preprocess, ImageToString Preprocessed (Some 30), ImageOpen])) \<and>
         (Image_open L p = Inr im \<longrightarrow>
            (image_to_string L im TESSERACT_LANG (Some 30) = Inr retry_text \<longrightarrow>
               extract_text_from_image L p =
                 (Inr retry_text,
                  [CvImread, Preprocess, ImageToString Preprocessed (Some 30), ImageOpen,
                   ImageToString Unprocessed (Some 30)])) \<and>
            (image_to_string L im TESSERACT_LANG (Some 30) = Inl retry_e \<longrightarrow>
               extract_text_from_image L p =
                 (Inr ''Error extracting text from image after multiple attempts.'',
                  [CvImread, Preprocess, ImageToString Preprocessed (Some 30), ImageOpen,
                   ImageToString Unprocessed (Some 30)]))))"
  proof (intro conjI impI)
    assume "cv2_imread L p = Inr (Some img)" "preprocess_image L img = Inr pil"
      "image_to_string L pil TESSERACT_LANG (Some 30) = Inr pre_text"
    then show "extract_text_from_image L p =
        (Inr pre_text, [CvImread, Preprocess, ImageToString Preprocessed (Some 30)])"
      by (simp add: extract_text_from_image_def image_try_block_cases)
  next
    assume "cv2_imread L p = Inr (Some img)" "preprocess_image L img = Inr pil"
      "image_to_string L pil TESSERACT_LANG (Some 30) = Inl TesseractError"
    then show "extract_text_from_image L p =
        (Inr ''Error during Tesseract OCR processing.'',
         [CvImread, Preprocess, ImageToString Preprocessed (Some 30)])"
      by (simp add: extract_text_from_image_def image_try_block_cases)
  next
    assume "cv2_imread L p = Inr (Some img)" "preprocess_image L img = Inr pil"
      "image_to_string L pil TESSERACT_LANG (Some 30) = Inl e" "e \<noteq> TesseractError"
      "Image_open L p = Inl open_e"
    then show "extract_text_from_image L p =
        (Inr ''Error extracting text from image after multiple attempts.'',
         [CvImread, Preprocess, ImageToString Preprocessed (Some 30), ImageOpen])"
      by (cases e)
         (simp_all add: extract_text_from_image_def image_try_block_cases
            image_retry_block_cases)
  next
    assume "cv2_imread L p = Inr (Some img)" "preprocess_image L img = Inr pil"
      "image_to_string L pil TESSERACT_LANG (Some 30) = Inl e" "e \<noteq> TesseractError"
      "Image_open L p = Inr im" "image_to_string L im TESSERACT_LANG (Some 30) = Inr retry_text"
    then show "extract_text_from_image L p =
        (Inr retry_text,
         [CvImread, Preprocess, ImageToString Preprocessed (Some 30), ImageOpen,
          ImageToString Unprocessed (Some 30)])"
      by (cases e)
         (simp_all add: extract_text_from_image_def image_try_block_cases
            image_retry_block_cases)
  next
    assume "cv2_imread L p = Inr (Some img)" "preprocess_image L img = Inr pil"
      "image_to_string L pil TESSERACT_LANG (Some 30) = Inl e" "e \<noteq> TesseractError"
      "Image_open L p = Inr im" "image_to_string L im TESSERACT_LANG (Some 30) = Inl retry_e"
    then show "extract_text_from_image L p =
        (Inr ''Error extracting text from image after multiple attempts.'',
         [CvImread, Preprocess, ImageToString Preprocessed (Some 30), ImageOpen,
          ImageToString Unprocessed (Some 30)])"
      by (cases e)
         (simp_all add: extract_text_from_image_def image_try_block_cases
            image_retry_block_cases)
  qed
qed

text \<open>
  The theorem on libraries that cover every way through the function. OpenCV reads the
  file and preprocessing succeeds: the engine reads the text; the engine raises its own
  error; the engine times out on the preprocessed image and reads the unprocessed one;
  the engine times out on both; the file cannot be opened again. OpenCV returns nothing:
  the engine reads the unprocessed image; the engine raises its own error; the engine
  fails without a timeout and reads the image on the retry; the generic loader cannot
  open the file. OpenCV raises, and preprocessing raises: the retry reads the text.
\<close>

theorem extract_text_from_image_tiers_witness:
  "extract_text_from_image
     (scripted_ocr_libs (Inr (Some ())) (Inr Unprocessed) ocr_reads_hello) ''scan.png'' =
     (Inr ''hello'', [CvImread, Preprocess, ImageToString Preprocessed (Some 30)]) \<and>
   extract_text_from_image
     (scripted_ocr_libs (Inr (Some ())) (Inr Unprocessed) ocr_engine_error) ''scan.png'' =
     (Inr ''Error during Tesseract OCR processing.'',
      [CvImread, Preprocess, ImageToString Preprocessed (Some 30)]) \<and>
   extract_text_from_image
     (scripted_ocr_libs (Inr (Some ())) (Inr Unprocessed) ocr_times_out_when_preprocessed)
     ''scan.png'' =
     (Inr ''hello'',
      [CvImread, Preprocess, ImageToString Preprocessed (Some 30), ImageOpen,
       ImageToString Unprocessed (Some 30)]) \<and>
   extract_text_from_image
     (scripted_ocr_libs (Inr (Some ())) (Inr Unprocessed) ocr_always_times_out) ''scan.png'' =
     (Inr ''Error extracting text from image after multiple attempts.'',
      [CvImread, Preprocess, ImageToString Preprocessed (Some 30), ImageOpen,
       ImageToString Unprocessed (Some 30)]) \<and>
   extract_text_from_image
     (scripted_ocr_libs (Inr (Some ())) (Inl OtherException) ocr_always_times_out) ''scan.png'' =
     (Inr ''Error extracting text from image after multiple attempts.'',
      [CvImread, Preprocess, ImageToString Preprocessed (Some 30), ImageOpen]) \<and>
   extract_text_from_image
     (scripted_ocr_libs (Inr None) (Inr Unprocessed) ocr_reads_hello) ''scan.png'' =
     (Inr ''hello'', [CvImread, ImageOpen, ImageToString Unprocessed None]) \<and>
   extract_text_from_image
     (scripted_ocr_libs (Inr None) (Inr Unprocessed) ocr_engine_error) ''scan.png'' =
     (Inr ''Error during Tesseract OCR processing.'',
      [CvImread, ImageOpen, ImageToString Unprocessed None]) \<and>
   extract_text_from_image
     (scripted_ocr_libs (Inr None) (Inr Unprocessed) ocr_fails_without_timeout) ''scan.png'' =
     (Inr ''hello'',
      [CvImread, ImageOpen, ImageToString Unprocessed None, ImageOpen,
       ImageToString Unprocessed (Some 30)]) \<and>
   extract_text_from_image
     (scripted_ocr_libs (Inr None) (Inl OtherException) ocr_reads_hello) ''scan.png'' =
     (Inr ''Error extracting text from image after multiple attempts.'',
      [CvImread, ImageOpen, ImageOpen]) \<and>
   extract_text_from_image
     (scripted_ocr_libs (Inl OtherException) (Inr Unprocessed) ocr_reads_hello) ''scan.png'' =
     (Inr ''hello'', [CvImread, ImageOpen, ImageToString Unprocessed (Some 30)]) \<and>
   extract_text_from_image
     (preprocessing_raises (scripted_ocr_libs (Inr (Some ())) (Inr Unprocessed) ocr_reads_hello))
     ''scan.png'' =
     (Inr ''hello'', [CvImread, Preprocess, ImageOpen, ImageToString Unprocessed (Some 30)])"
proof -
  note t = extract_text_from_image_tiers
  note ev = scripted_ocr_libs_def preprocessing_raises_def Let_def
  have a: "extract_text_from_image
     (scripted_ocr_libs (Inr (Some ())) (Inr Unprocessed) ocr_reads_hello) ''scan.png'' =
     (Inr ''hello'', [CvImread, Preprocess, ImageToString Preprocessed (Some 30)])"
    using t [where L = "scripted_ocr_libs (Inr (Some ())) (Inr Unprocessed) ocr_reads_hello"
        and p = "''scan.png''" and img = "()" and pil = Preprocessed and pre_text = "''hello''"
        and first_text = "''hello''"
        and tr = "[CvImread, Preprocess, ImageToString Preprocessed (Some 30)]"
        and first_e = OtherException and open_e = OtherException and im = Unprocessed
        and retry_text = "''hello''" and retry_e = OtherException and e = OtherException]
    by (simp add: ev ocr_reads_hello_def)
  have b: "extract_text_from_image
     (scripted_ocr_libs (Inr (Some ())) (Inr Unprocessed) ocr_engine_error) ''scan.png'' =
     (Inr ''Error during Tesseract OCR processing.'',
      [CvImread, Preprocess, ImageToString Preprocessed (Some 30)])"
    using t [where L = "scripted_ocr_libs (Inr (Some ())) (Inr Unprocessed) ocr_engine_error"
        and p = "''scan.png''" and img = "()" and pil = Preprocessed and pre_text = "''hello''"
        and first_text = "''hello''"
        and tr = "[CvImread, Preprocess, ImageToString Preprocessed (Some 30)]"
        and first_e = OtherException and open_e = OtherException and im = Unprocessed
        and retry_text = "''hello''" and retry_e = OtherException and e = OtherException]
    by (simp add: ev ocr_engine_error_def)
  have c: "extract_text_from_image
     (scripted_ocr_libs (Inr (Some ())) (Inr Unprocessed) ocr_times_out_when_preprocessed)
     ''scan.png'' =
     (Inr ''hello'',
      [CvImread, Preprocess, ImageToString Preprocessed (Some 30), ImageOpen,
       ImageToString Unprocessed (Some 30)])"
    using t [where L = "scripted_ocr_libs (Inr (Some ())) (Inr Unprocessed)
          ocr_times_out_when_preprocessed"
        and p = "''scan.png''" and img = "()" and pil = Preprocessed and pre_text = "''hello''"
        and first_text = "''hello''"
        and tr = "[CvImread, Preprocess, ImageToString Preprocessed (Some 30)]"
        and first_e = OtherException and open_e = OtherException and im = Unprocessed
        and retry_text = "''hello''" and retry_e = OtherException and e = OtherException]
    by (simp add: ev ocr_times_out_when_preprocessed_def)
  have d: "extract_text_from_image
     (scripted_ocr_libs (Inr (Some ())) (Inr Unprocessed) ocr_always_times_out) ''scan.png'' =
     (Inr ''Error extracting text from image after multiple attempts.'',
      [CvImread, Preprocess, ImageToString Preprocessed (Some 30), ImageOpen,
       ImageToString Unprocessed (Some 30)])"
    using t [where L = "scripted_ocr_libs (Inr (Some ())) (Inr Unprocessed) ocr_always_times_out"
        and p = "''scan.png''" and img = "()" and pil = Preprocessed and pre_text = "''hello''"
        and first_text = "''hello''"
        and tr = "[CvImread, Preprocess, ImageToString Preprocessed (Some 30)]"
        and first_e = OtherException and open_e = OtherException and im = Unprocessed
        and retry_text = "''hello''" and retry_e = OtherException and e = OtherException]
    by (simp add: ev ocr_always_times_out_def)
  have e: "extract_text_from_image
     (scripted_ocr_libs (Inr (Some ())) (Inl OtherException) ocr_always_times_out) ''scan.png'' =
     (Inr ''Error extracting text from image after multiple attempts.'',
      [CvImread, Preprocess, ImageToString Preprocessed (Some 30), ImageOpen])"
    using t [where L = "scripted_ocr_libs (Inr (Some ())) (Inl OtherException)
          ocr_always_times_out"
        and p = "''scan.png''" and img = "()" and pil = Preprocessed and pre_text = "''hello''"
        and first_text = "''hello''"
        and tr = "[CvImread, Preprocess, ImageToString Preprocessed (Some 30)]"
        and first_e = OtherException and open_e = OtherException and im = Unprocessed
        and retry_text = "''hello''" and retry_e = OtherException and e = OtherException]
    by (simp add: ev ocr_always_times_out_def)
  have f: "extract_text_from_image
     (scripted_ocr_libs (Inr None) (Inr Unprocessed) ocr_reads_hello) ''scan.png'' =
     (Inr ''hello'', [CvImread, ImageOpen, ImageToString Unprocessed None])"
    using t [where L = "scripted_ocr_libs (Inr None) (Inr Unprocessed) ocr_reads_hello"
        and p = "''scan.png''" and img = "()" and pil = Preprocessed and pre_text = "''hello''"
        and first_text = "''hello''"
        and tr = "[CvImread, ImageOpen, ImageToString Unprocessed None]"
        and first_e = OtherException and open_e = OtherException and im = Unprocessed
        and retry_text = "''hello''" and retry_e = OtherException and e = OtherException]
    by (simp add: ev ocr_reads_hello_def)
  have g: "extract_text_from_image
     (scripted_ocr_libs (Inr None) (Inr Unprocessed) ocr_engine_error) ''scan.png'' =
     (Inr ''Error during Tesseract OCR processing.'',
      [CvImread, ImageOpen, ImageToString Unprocessed None])"
    using t [where L = "scripted_ocr_libs (Inr None) (Inr Unprocessed) ocr_engine_error"
        and p = "''scan.png''" and img = "()" and pil = Preprocessed and pre_text = "''hello''"
        and first_text = "''hello''"
        and tr = "[CvImread, ImageOpen, ImageToString Unprocessed None]"
        and first_e = OtherException and open_e = OtherException and im = Unprocessed
        and retry_text = "''hello''" and retry_e = OtherException and e = OtherException]
    by (simp add: ev ocr_engine_error_def)
  have h: "extract_text_from_image
     (scripted_ocr_libs (Inr None) (Inr Unprocessed) ocr_fails_without_timeout) ''scan.png'' =
     (Inr ''hello'',
      [CvImread, ImageOpen, ImageToString Unprocessed None, ImageOpen,
       ImageToString Unprocessed (Some 30)])"
    using t [where L = "scripted_ocr_libs (Inr None) (Inr Unprocessed) ocr_fails_without_timeout"
        and p = "''scan.png''" and img = "()" and pil = Preprocessed and pre_text = "''hello''"
        and first_text = "''hello''"
        and tr = "[CvImread, ImageOpen, ImageToString Unprocessed None]"
        and first_e = OtherException and open_e = OtherException and im = Unprocessed
        and retry_text = "''hello''" and retry_e = OtherException and e = OtherException]
    by (simp add: ev ocr_fails_without_timeout_def)
  have i: "extract_text_from_image
     (scripted_ocr_libs (Inr None) (Inl OtherException) ocr_reads_hello) ''scan.png'' =
     (Inr ''Error extracting text from image after multiple attempts.'',
      [CvImread, ImageOpen, ImageOpen])"
    using t [where L = "scripted_ocr_libs (Inr None) (Inl OtherException) ocr_reads_hello"
        and p = "''scan.png''" and img = "()" and pil = Preprocessed and pre_text = "''hello''"
        and first_text = "''hello''"
        and tr = "[CvImread, ImageOpen]"
        and first_e = OtherException and open_e = OtherException and im = Unprocessed
        and retry_text = "''hello''" and retry_e = OtherException and e = OtherException]
    by (simp add: ev ocr_reads_hello_def)
  have j: "extract_text_from_image
     (scripted_ocr_libs (Inl OtherException) (Inr Unprocessed) ocr_reads_hello) ''scan.png'' =
     (Inr ''hello'', [CvImread, ImageOpen, ImageToString Unprocessed (Some 30)])"
    using t [where L = "scripted_ocr_libs (Inl OtherException) (Inr Unprocessed) ocr_reads_hello"
        and p = "''scan.png''" and img = "()" and pil = Preprocessed and pre_text = "''hello''"
        and first_text = "''hello''"
        and tr = "[CvImread]"
        and first_e = OtherException and open_e = OtherException and im = Unprocessed
        and retry_text = "''hello''" and retry_e = OtherException and e = OtherException]
    by (simp add: ev ocr_reads_hello_def)
  have k: "extract_text_from_image
     (preprocessing_raises (scripted_ocr_libs (Inr (Some ())) (Inr Unprocessed) ocr_reads_hello))
     ''scan.png'' =
     (Inr ''hello'', [CvImread, Preprocess, ImageOpen, ImageToString Unprocessed (Some 30)])"
    using t [where L = "preprocessing_raises
          (scripted_ocr_libs (Inr (Some ())) (Inr Unprocessed) ocr_reads_hello)"
        and p = "''scan.png''" and img = "()" and pil = Preprocessed and pre_text = "''hello''"
        and first_text = "''hello''"
        and tr = "[CvImread, Preprocess]"
        and first_e = OtherException and open_e = OtherException and im = Unprocessed
        and retry_text = "''hello''" and retry_e = OtherException and e = OtherException]
    by (simp add: ev ocr_reads_hello_def)
  from a b c d e f g h i j k show ?thesis by blast
qed

subsection \<open>PDF extraction\<close>

lemma page_try_block_cases:
  "page_try_block P L doc n =
     (case load_page P doc n of
        Inl e \<Rightarrow> (Inl e, [LoadPage n])
      | Inr page \<Rightarrow>
          (case get_text P page of
             Inl e \<Rightarrow> (Inl e, [LoadPage n, GetText n])
           | Inr embedded \<Rightarrow>
               if str_strip embedded \<noteq> []
               then (Inr (embedded @ ''\<newline>''), [LoadPage n, GetText n])
               else
                 (case render_page P page of
                    Inl e \<Rightarrow> (Inl e, [LoadPage n, GetText n, RenderPage n])
                  | Inr None \<Rightarrow>
                      (Inr (''[OCR failed for this page]'' @ ''\<newline>''),
                       [LoadPage n, GetText n, RenderPage n])
                  | Inr (Some img) \<Rightarrow>
                      (case preprocess_image L img of
                         Inl e \<Rightarrow> (Inl e, [LoadPage n, GetText n, RenderPage n, Preprocess])
                       | Inr pil_img \<Rightarrow>
                           (case image_to_string L pil_img TESSERACT_LANG (Some 60) of
                              Inl e \<Rightarrow>
                                (Inl e,
                                 [LoadPage n, GetText n, RenderPage n, Preprocess,
                                  ImageToString Preprocessed (Some 60)])
                            | Inr ocr_text \<Rightarrow>
                                (Inr (ocr_text @ ''\<newline>''),
                                 [LoadPage n, GetText n, RenderPage n, Preprocess,
                                  ImageToString Preprocessed (Some 60)]))))))"
  by (simp add: page_try_block_def external_def returns_def
      split: sum.splits option.splits)

text \<open>The loop body refines the resolved text of the design, followed by a newline.\<close>

lemma process_page_fst:
  "fst (process_page P L doc n) = Inr (resolved_page_text P L doc n @ ''\<newline>'')"
  by (simp add: process_page_def page_try_block_cases resolved_page_text_def
      split: sum.splits option.splits)

lemma process_page_snd: "snd (process_page P L doc n) = snd (page_try_block P L doc n)"
  by (cases "page_try_block P L doc n"; cases "fst (page_try_block P L doc n)")
     (auto simp: process_page_def)

lemma process_page_raised:
  assumes "fst (page_try_block P L doc n) = Inl e"
  shows "fst (process_page P L doc n) = Inr (page_error_marker n @ ''\<newline>'')"
  using assms by (cases "page_try_block P L doc n") (simp add: process_page_def)

lemma LoadPage_in_trace: "LoadPage n \<in> set (snd (process_page P L doc n))"
  by (simp add: process_page_snd page_try_block_cases split: sum.splits option.splits)

text \<open>The loop in closed form: the pages' texts in order, and the pages' calls in order.\<close>

lemma pdf_loop_closed:
  "pdf_loop P L doc ns acc =
     (Inr (acc @ concat (map (\<lambda>i. resolved_page_text P L doc i @ ''\<newline>'') ns)),
      concat (map (\<lambda>i. snd (process_page P L doc i)) ns))"
proof (induction ns arbitrary: acc)
  case Nil
  show ?case by (simp add: returns_def)
next
  case (Cons n ns)
  obtain t where "process_page P L doc n =
      (Inr (resolved_page_text P L doc n @ ''\<newline>''), t)"
    using process_page_fst [of P L doc n] by (cases "process_page P L doc n") simp
  then show ?case by (simp add: Cons.IH)
qed

lemma py_range_unit: "py_range 0 n (Suc 0) = [0..<n]"
  by (simp add: py_range_def map_idI)

lemma extract_text_from_pdf_opened:
  assumes "fitz_open P path = Inr doc" and "doc_len P doc = Inr n"
  shows "extract_text_from_pdf P L path =
     (Inr (str_strip (concat (map (\<lambda>i. resolved_page_text P L doc i @ ''\<newline>'') [0..<n]))),
      FitzOpen # DocLen # concat (map (\<lambda>i. snd (process_page P L doc i)) [0..<n]))"
  using assms
  by (simp add: extract_text_from_pdf_def pdf_try_block_def pdf_loop_closed py_range_unit
      returns_def)

lemma extract_text_from_pdf_not_opened:
  assumes "fitz_open P path = Inl e"
  shows "extract_text_from_pdf P L path = (Inr ''Error extracting text from PDF.'', [FitzOpen])"
  using assms by (simp add: extract_text_from_pdf_def pdf_try_block_def)

lemma extract_text_from_pdf_returns: "\<exists>s. fst (extract_text_from_pdf P L path) = Inr s"
  unfolding extract_text_from_pdf_def by (rule except_total) simp

text \<open>Evaluating the string functions on literals.\<close>

lemma str_nat_small: "n < 10 \<Longrightarrow> str_nat n = [digit n]"
  by (simp add: str_nat.simps)

lemmas eval_simps =
  isspace_def whitespace_def str_strip_def digit_def page_error_marker_def str_nat_small
  TESSERACT_LANG_def

subsection \<open>How often OCR runs\<close>

lemma snd_except_returns: "snd (except m (\<lambda>e. returns x)) = snd m"
proof (cases m)
  case (Pair r t)
  then show ?thesis by (cases r) simp_all
qed

lemma page_ocr_calls:
  "ocr_calls (snd (process_page P L doc n)) \<in> {[], [ImageToString Preprocessed (Some 60)]}"
  by (simp add: process_page_snd page_try_block_cases ocr_calls_def is_ocr_def
      split: sum.splits option.splits)

lemma image_trace_cases:
  "snd (extract_text_from_image L p) \<in>
     {[CvImread],
      [CvImread, ImageOpen],
      [CvImread, ImageOpen, ImageToString Unprocessed (Some 30)],
      [CvImread, ImageOpen, ImageOpen],
      [CvImread, ImageOpen, ImageOpen, ImageToString Unprocessed (Some 30)],
      [CvImread, ImageOpen, ImageToString Unprocessed None],
      [CvImread, ImageOpen, ImageToString Unprocessed None, ImageOpen],
      [CvImread, ImageOpen, ImageToString Unprocessed None, ImageOpen,
       ImageToString Unprocessed (Some 30)],
      [CvImread, Preprocess],
      [CvImread, Preprocess, ImageOpen],
      [CvImread, Preprocess, ImageOpen, ImageToString Unprocessed (Some 30)],
      [CvImread, Preprocess, ImageToString Preprocessed (Some 30)],
      [CvImread, Preprocess, ImageToString Preprocessed (Some 30), ImageOpen],
      [CvImread, Preprocess, ImageToString Preprocessed (Some 30), ImageOpen,
       ImageToString Unprocessed (Some 30)]}"
proof (cases "image_try_block L p")
  case (Pair r t)
  show ?thesis
  proof (cases r)
    case (Inr s)
    with Pair have "snd (extract_text_from_image L p) = snd (image_try_block L p)"
      by (simp add: extract_text_from_image_def)
    then show ?thesis
      by (simp add: image_try_block_cases split: sum.splits option.splits)
  next
    case (Inl e)
    show ?thesis
    proof (cases "e = TesseractError")
      case True
      with Pair Inl have "snd (extract_text_from_image L p) = snd (image_try_block L p)"
        by (simp add: extract_text_from_image_def)
      then show ?thesis
        by (simp add: image_try_block_cases split: sum.splits option.splits)
    next
      case False
      have "snd (except (image_retry_block L p) (\<lambda>pil_e. returns msg)) \<in>
          {[ImageOpen], [ImageOpen, ImageToString Unprocessed (Some 30)]}" for msg :: string
        by (simp add: snd_except_returns image_retry_block_cases split: sum.splits)
      with False Pair Inl have "snd (extract_text_from_image L p) \<in>
          {snd (image_try_block L p) @ [ImageOpen],
           snd (image_try_block L p) @ [ImageOpen, ImageToString Unprocessed (Some 30)]}"
        by (cases e) (auto simp: extract_text_from_image_def)
      then show ?thesis
        by (auto simp: image_try_block_cases split: sum.splits option.splits)
    qed
  qed
qed

text \<open>
  Claim C4, as amended. One iteration of the PDF loop makes at most one OCR call, on the
  preprocessed page image with a timeout of 60 seconds, and the loop runs once per
  page, in order. One call of \<^verbatim>\<open>extract_text_from_image\<close> makes at most two OCR
  calls, at most one of them on the preprocessed image, and a second call is always on
  the unprocessed image with a timeout of 30 seconds. The first call is on the
  unprocessed image when OpenCV cannot read the file.
\<close>

theorem ocr_attempts_bounded:
  "ocr_calls (snd (process_page P L doc n)) \<in> {[], [ImageToString Preprocessed (Some 60)]} \<and>
   (fitz_open P path = Inr doc \<longrightarrow> doc_len P doc = Inr m \<longrightarrow>
      snd (extract_text_from_pdf P L path) =
        FitzOpen # DocLen # concat (map (\<lambda>i. snd (process_page P L doc i)) [0..<m])) \<and>
   ocr_calls (snd (extract_text_from_image L' p)) \<in>
     {[],
      [ImageToString Preprocessed (Some 30)],
      [ImageToString Unprocessed None],
      [ImageToString Unprocessed (Some 30)],
      [ImageToString Preprocessed (Some 30), ImageToString Unprocessed (Some 30)],
      [ImageToString Unprocessed None, ImageToString Unprocessed (Some 30)]} \<and>
   length (ocr_calls (snd (extract_text_from_image L' p))) \<le> 2 \<and>
   length (ocr_calls_on Preprocessed (snd (extract_text_from_image L' p))) \<le> 1"
proof (intro conjI impI)
  show "ocr_calls (snd (process_page P L doc n)) \<in> {[], [ImageToString Preprocessed (Some 60)]}"
    by (rule page_ocr_calls)
next
  assume "fitz_open P path = Inr doc" "doc_len P doc = Inr m"
  then show "snd (extract_text_from_pdf P L path) =
      FitzOpen # DocLen # concat (map (\<lambda>i. snd (process_page P L doc i)) [0..<m])"
    by (simp add: extract_text_from_pdf_opened)
next
  let ?t = "snd (extract_text_from_image L' p)"
  note tc = image_trace_cases [of L' p]
  show "ocr_calls ?t \<in>
     {[],
      [ImageToString Preprocessed (Some 30)],
      [ImageToString Unprocessed None],
      [ImageToString Unprocessed (Some 30)],
      [ImageToString Preprocessed (Some 30), ImageToString Unprocessed (Some 30)],
      [ImageToString Unprocessed None, ImageToString Unprocessed (Some 30)]}"
    using tc by (auto simp: ocr_calls_def is_ocr_def)
  show "length (ocr_calls ?t) \<le> 2"
    using tc by (auto simp: ocr_calls_def is_ocr_def)
  show "length (ocr_calls_on Preprocessed ?t) \<le> 1"
    using tc by (auto simp: ocr_calls_on_def is_ocr_on_def)
qed

text \<open>
  The theorem on a document of three pages, a scanned one between two pages with
  embedded text: the one OCR call is that of the second page.
\<close>

theorem ocr_attempts_bounded_witness:
  "fitz_open (sample_pdf_libs (Inr [TextPage ''one'', ScannedPage, TextPage ''three''])) ''book.pdf'' =
     Inr [TextPage ''one'', ScannedPage, TextPage ''three''] \<and>
   doc_len (sample_pdf_libs (Inr [TextPage ''one'', ScannedPage, TextPage ''three'']))
     [TextPage ''one'', ScannedPage, TextPage ''three''] = Inr 3 \<and>
   snd (extract_text_from_pdf
     (sample_pdf_libs (Inr [TextPage ''one'', ScannedPage, TextPage ''three'']))
     (scripted_ocr_libs (Inr None) (Inr Unprocessed) ocr_reads_hello) ''book.pdf'') =
     [FitzOpen, DocLen, LoadPage 0, GetText 0,
      LoadPage 1, GetText 1, RenderPage 1, Preprocess, ImageToString Preprocessed (Some 60),
      LoadPage 2, GetText 2]"
proof -
  let ?doc = "[TextPage ''one'', ScannedPage, TextPage ''three'']"
  let ?P = "sample_pdf_libs (Inr ?doc)"
  let ?L = "scripted_ocr_libs (Inr None) (Inr Unprocessed) ocr_reads_hello"
  have o: "fitz_open ?P ''book.pdf'' = Inr ?doc"
    by (simp add: sample_pdf_libs_def)
  have l: "doc_len ?P ?doc = Inr 3"
    by (simp add: sample_pdf_libs_def)
  have u: "[0..<3] = [0, 1, 2]"
    by (simp add: upt_rec)
  have "snd (extract_text_from_pdf ?P ?L ''book.pdf'') =
      FitzOpen # DocLen # concat (map (\<lambda>i. snd (process_page ?P ?L ?doc i)) [0..<3])"
    using ocr_attempts_bounded [of ?P ?L ?doc _ "''book.pdf''" 3] o l by blast
  also have "\<dots> =
     [FitzOpen, DocLen, LoadPage 0, GetText 0,
      LoadPage 1, GetText 1, RenderPage 1, Preprocess, ImageToString Preprocessed (Some 60),
      LoadPage 2, GetText 2]"
    by (simp add: u process_page_snd page_try_block_cases sample_pdf_libs_def
        scripted_ocr_libs_def ocr_reads_hello_def eval_simps)
  finally show ?thesis using o l by blast
qed

text \<open>
  Claim C4 as stated fails: it allows one OCR attempt on the unprocessed image, after the
  attempt on the preprocessed one. When OpenCV cannot read the file, the first attempt is
  already on the unprocessed image, and when it raises an exception other than the
  engine's, a second attempt on the unprocessed image follows: two attempts on the
  unprocessed image and none on the preprocessed one.
\<close>

theorem ocr_single_unprocessed_attempt_counterexample:
  "snd (extract_text_from_image
     (scripted_ocr_libs (Inr None) (Inr Unprocessed) ocr_fails_without_timeout) ''scan.png'') =
     [CvImread, ImageOpen, ImageToString Unprocessed None, ImageOpen,
      ImageToString Unprocessed (Some 30)] \<and>
   \<not> length (ocr_calls_on Unprocessed (snd (extract_text_from_image
     (scripted_ocr_libs (Inr None) (Inr Unprocessed) ocr_fails_without_timeout) ''scan.png''))) \<le> 1 \<and>
   ocr_calls_on Preprocessed (snd (extract_text_from_image
     (scripted_ocr_libs (Inr None) (Inr Unprocessed) ocr_fails_without_timeout) ''scan.png'')) = []"
  by (simp add: extract_text_from_image_def image_try_block_cases image_retry_block_cases
      scripted_ocr_libs_def ocr_fails_without_timeout_def ocr_calls_on_def is_ocr_on_def)

subsection \<open>Failure of one page\<close>

lemma resolved_page_text_raised:
  assumes "fst (page_try_block P L doc i) = Inl e"
  shows "resolved_page_text P L doc i = page_error_marker i"
  using process_page_fst [of P L doc i] process_page_raised [OF assms] by simp

lemma upt_split_at: "i < n \<Longrightarrow> [0..<n] = [0..<i] @ i # [Suc i..<n]"
  by (metis le_add1 less_imp_add_positive less_or_eq_imp_le plus_nat.add_0 upt_add_eq_append
      upt_conv_Cons)

text \<open>
  Claim C1. No exception leaves \<^verbatim>\<open>extract_text_from_pdf\<close>. When the document opens
  with \<open>n\<close> pages and the \<^verbatim>\<open>try\<close> block of page \<open>i\<close> raises (loading the page, reading
  its text, rendering, preprocessing or OCR), the iteration appends the marker
  \<^verbatim>\<open>[Error processing page i+1]\<close> with a newline, the result is the stripped
  concatenation of the texts of the pages before, the marker, and the texts of the pages
  after, and every page of the document is loaded.
\<close>

theorem page_failure_isolated:
  "(\<exists>s. fst (extract_text_from_pdf P L path) = Inr s) \<and>
   (fitz_open P path = Inr doc \<longrightarrow> doc_len P doc = Inr n \<longrightarrow> i < n \<longrightarrow>
    fst (page_try_block P L doc i) = Inl e \<longrightarrow>
      fst (process_page P L doc i) =
        Inr (''[Error processing page '' @ str_nat (i + 1) @ '']'' @ ''\<newline>'') \<and>
      fst (extract_text_from_pdf P L path) =
        Inr (str_strip
          (concat (map (\<lambda>j. resolved_page_text P L doc j @ ''\<newline>'') [0..<i]) @
           (''[Error processing page '' @ str_nat (i + 1) @ '']'' @ ''\<newline>'') @
           concat (map (\<lambda>j. resolved_page_text P L doc j @ ''\<newline>'') [Suc i..<n]))) \<and>
      (\<forall>j<n. LoadPage j \<in> set (snd (extract_text_from_pdf P L path))))"
proof (intro conjI impI)
  show "\<exists>s. fst (extract_text_from_pdf P L path) = Inr s"
    by (rule extract_text_from_pdf_returns)
next
  assume "fst (page_try_block P L doc i) = Inl e"
  then show "fst (process_page P L doc i) =
      Inr (''[Error processing page '' @ str_nat (i + 1) @ '']'' @ ''\<newline>'')"
    by (simp add: process_page_raised page_error_marker_def)
next
  assume opened: "fitz_open P path = Inr doc" "doc_len P doc = Inr n"
    and i: "i < n" and raised: "fst (page_try_block P L doc i) = Inl e"
  have "concat (map (\<lambda>j. resolved_page_text P L doc j @ ''\<newline>'') [0..<n]) =
      concat (map (\<lambda>j. resolved_page_text P L doc j @ ''\<newline>'') [0..<i]) @
      (page_error_marker i @ ''\<newline>'') @
      concat (map (\<lambda>j. resolved_page_text P L doc j @ ''\<newline>'') [Suc i..<n])"
    by (simp add: upt_split_at [OF i] resolved_page_text_raised [OF raised])
  then show "fst (extract_text_from_pdf P L path) =
      Inr (str_strip
        (concat (map (\<lambda>j. resolved_page_text P L doc j @ ''\<newline>'') [0..<i]) @
         (''[Error processing page '' @ str_nat (i + 1) @ '']'' @ ''\<newline>'') @
         concat (map (\<lambda>j. resolved_page_text P L doc j @ ''\<newline>'') [Suc i..<n])))"
    by (simp add: extract_text_from_pdf_opened [OF opened] page_error_marker_def)
next
  assume opened: "fitz_open P path = Inr doc" "doc_len P doc = Inr n"
  show "\<forall>j<n. LoadPage j \<in> set (snd (extract_text_from_pdf P L path))"
  proof (intro allI impI)
    fix j
    assume "j < n"
    then have "LoadPage j \<in> set (concat (map (\<lambda>i. snd (process_page P L doc i)) [0..<n]))"
      using LoadPage_in_trace [of j P L doc] by auto
    then show "LoadPage j \<in> set (snd (extract_text_from_pdf P L path))"
      by (simp add: extract_text_from_pdf_opened [OF opened])
  qed
qed

text \<open>
  The theorem on a document of three pages whose second page cannot be loaded: the texts
  of pages 1 and 3 with the marker of page 2 between them, and page 3 is loaded after
  the failure.
\<close>

theorem page_failure_isolated_witness:
  "fitz_open (sample_pdf_libs (Inr [TextPage ''one'', CorruptPage, TextPage ''three'']))
     ''book.pdf'' = Inr [TextPage ''one'', CorruptPage, TextPage ''three''] \<and>
   doc_len (sample_pdf_libs (Inr [TextPage ''one'', CorruptPage, TextPage ''three'']))
     [TextPage ''one'', CorruptPage, TextPage ''three''] = Inr 3 \<and>
   (1::nat) < 3 \<and>
   fst (page_try_block (sample_pdf_libs (Inr [TextPage ''one'', CorruptPage, TextPage ''three'']))
     (scripted_ocr_libs (Inr None) (Inr Unprocessed) ocr_reads_hello)
     [TextPage ''one'', CorruptPage, TextPage ''three''] 1) = Inl OtherException \<and>
   fst (extract_text_from_pdf
     (sample_pdf_libs (Inr [TextPage ''one'', CorruptPage, TextPage ''three'']))
     (scripted_ocr_libs (Inr None) (Inr Unprocessed) ocr_reads_hello) ''book.pdf'') =
     Inr ''one\<newline>[Error processing page 2]\<newline>three'' \<and>
   LoadPage 2 \<in> set (snd (extract_text_from_pdf
     (sample_pdf_libs (Inr [TextPage ''one'', CorruptPage, TextPage ''three'']))
     (scripted_ocr_libs (Inr None) (Inr Unprocessed) ocr_reads_hello) ''book.pdf''))"
proof -
  let ?doc = "[TextPage ''one'', CorruptPage, TextPage ''three'']"
  let ?P = "sample_pdf_libs (Inr ?doc)"
  let ?L = "scripted_ocr_libs (Inr None) (Inr Unprocessed) ocr_reads_hello"
  have o: "fitz_open ?P ''book.pdf'' = Inr ?doc"
    by (simp add: sample_pdf_libs_def)
  have l: "doc_len ?P ?doc = Inr 3"
    by (simp add: sample_pdf_libs_def)
  have r: "fst (page_try_block ?P ?L ?doc 1) = Inl OtherException"
    by (simp add: page_try_block_cases sample_pdf_libs_def)
  have i: "(1::nat) < 3"
    by simp
  note t = page_failure_isolated [of ?P ?L "''book.pdf''" ?doc 3 1 OtherException]
  have res: "fst (extract_text_from_pdf ?P ?L ''book.pdf'') =
      Inr (str_strip
        (concat (map (\<lambda>j. resolved_page_text ?P ?L ?doc j @ ''\<newline>'') [0..<1]) @
         (''[Error processing page '' @ str_nat (1 + 1) @ '']'' @ ''\<newline>'') @
         concat (map (\<lambda>j. resolved_page_text ?P ?L ?doc j @ ''\<newline>'') [Suc 1..<3])))"
    using t o l r i by blast
  have later: "LoadPage 2 \<in> set (snd (extract_text_from_pdf ?P ?L ''book.pdf''))"
    using t o l r i by simp
  have u: "[Suc 1..<3] = [2]"
    by (simp add: upt_rec)
  have p0: "resolved_page_text ?P ?L ?doc 0 = ''one''"
    by (simp add: resolved_page_text_def sample_pdf_libs_def eval_simps)
  have p2: "resolved_page_text ?P ?L ?doc 2 = ''three''"
    by (simp add: resolved_page_text_def sample_pdf_libs_def eval_simps)
  have "fst (extract_text_from_pdf ?P ?L ''book.pdf'') =
      Inr ''one\<newline>[Error processing page 2]\<newline>three''"
    unfolding res u by (simp add: p0 p2 eval_simps)
  with o l r i later show ?thesis by blast
qed

subsection \<open>The result of the PDF extraction\<close>

text \<open>
  Claim C2. When the document opens with \<open>n\<close> pages, \<^verbatim>\<open>extract_text_from_pdf\<close> returns
  the resolved texts of pages \<open>0, \<dots>, n - 1\<close> in this order, each followed by a newline,
  concatenated and stripped of leading and trailing whitespace; a document of no pages
  gives the empty string; and when the document cannot be opened (or its length cannot be
  read) the result is the fixed error string.
\<close>

theorem extract_text_from_pdf_result:
  "(fitz_open P path = Inr doc \<longrightarrow> doc_len P doc = Inr n \<longrightarrow>
      fst (extract_text_from_pdf P L path) =
        Inr (str_strip
          (concat (map (\<lambda>i. resolved_page_text P L doc i @ ''\<newline>'') [0..<n])))) \<and>
   (fitz_open P path = Inr doc \<longrightarrow> doc_len P doc = Inr 0 \<longrightarrow>
      fst (extract_text_from_pdf P L path) = Inr '''') \<and>
   (fitz_open P path = Inl e \<longrightarrow>
      extract_text_from_pdf P L path = (Inr ''Error extracting text from PDF.'', [FitzOpen])) \<and>
   (fitz_open P path = Inr doc \<longrightarrow> doc_len P doc = Inl e \<longrightarrow>
      extract_text_from_pdf P L path =
        (Inr ''Error extracting text from PDF.'', [FitzOpen, DocLen]))"
proof (intro conjI impI)
  assume "fitz_open P path = Inr doc" "doc_len P doc = Inr n"
  then show "fst (extract_text_from_pdf P L path) =
      Inr (str_strip (concat (map (\<lambda>i. resolved_page_text P L doc i @ ''\<newline>'') [0..<n])))"
    by (simp add: extract_text_from_pdf_opened)
next
  assume "fitz_open P path = Inr doc" "doc_len P doc = Inr 0"
  then show "fst (extract_text_from_pdf P L path) = Inr ''''"
    by (simp add: extract_text_from_pdf_opened str_strip_def)
next
  assume "fitz_open P path = Inl e"
  then show "extract_text_from_pdf P L path =
      (Inr ''Error extracting text from PDF.'', [FitzOpen])"
    by (rule extract_text_from_pdf_not_opened)
next
  assume "fitz_open P path = Inr doc" "doc_len P doc = Inl e"
  then show "extract_text_from_pdf P L path =
      (Inr ''Error extracting text from PDF.'', [FitzOpen, DocLen])"
    by (simp add: extract_text_from_pdf_def pdf_try_block_def)
qed

text \<open>
  The theorem on a document with a page of embedded text, a scanned page and a page
  whose rendering cannot be decoded; on a document without pages; and on a file that
  cannot be opened.
\<close>

theorem extract_text_from_pdf_result_witness:
  "fst (extract_text_from_pdf
     (sample_pdf_libs (Inr [TextPage '' one '', ScannedPage, UndecodablePage]))
     (scripted_ocr_libs (Inr None) (Inr Unprocessed) ocr_reads_hello) ''book.pdf'') =
     Inr ''one \<newline>hello\<newline>[OCR failed for this page]'' \<and>
   fst (extract_text_from_pdf (sample_pdf_libs (Inr []))
     (scripted_ocr_libs (Inr None) (Inr Unprocessed) ocr_reads_hello) ''book.pdf'') = Inr '''' \<and>
   extract_text_from_pdf (sample_pdf_libs (Inl OtherException))
     (scripted_ocr_libs (Inr None) (Inr Unprocessed) ocr_reads_hello) ''book.pdf'' =
     (Inr ''Error extracting text from PDF.'', [FitzOpen])"
proof -
  let ?doc = "[TextPage '' one '', ScannedPage, UndecodablePage]"
  let ?P = "sample_pdf_libs (Inr ?doc)"
  let ?L = "scripted_ocr_libs (Inr None) (Inr Unprocessed) ocr_reads_hello"
  have o: "fitz_open ?P ''book.pdf'' = Inr ?doc"
    by (simp add: sample_pdf_libs_def)
  have l: "doc_len ?P ?doc = Inr 3"
    by (simp add: sample_pdf_libs_def)
  have res: "fst (extract_text_from_pdf ?P ?L ''book.pdf'') =
      Inr (str_strip (concat (map (\<lambda>i. resolved_page_text ?P ?L ?doc i @ ''\<newline>'') [0..<3])))"
    using extract_text_from_pdf_result [of ?P "''book.pdf''" ?doc 3 ?L] o l by blast
  have u: "[0..<3] = [0, 1, 2]"
    by (simp add: upt_rec)
  have p0: "resolved_page_text ?P ?L ?doc 0 = '' one ''"
    by (simp add: resolved_page_text_def sample_pdf_libs_def eval_simps)
  have p1: "resolved_page_text ?P ?L ?doc (Suc 0) = ''hello''"
    by (simp add: resolved_page_text_def sample_pdf_libs_def scripted_ocr_libs_def
        ocr_reads_hello_def eval_simps)
  have p2: "resolved_page_text ?P ?L ?doc 2 = ''[OCR failed for this page]''"
    by (simp add: resolved_page_text_def sample_pdf_libs_def eval_simps)
  have a: "fst (extract_text_from_pdf ?P ?L ''book.pdf'') =
      Inr ''one \<newline>hello\<newline>[OCR failed for this page]''"
    unfolding res u by (simp add: p0 p1 p2 eval_simps)
  have b: "fst (extract_text_from_pdf (sample_pdf_libs (Inr [])) ?L ''book.pdf'') = Inr ''''"
    using extract_text_from_pdf_result [of "sample_pdf_libs (Inr [])" "''book.pdf''" "[]" _ ?L]
    by (simp add: sample_pdf_libs_def)
  have c: "extract_text_from_pdf (sample_pdf_libs (Inl OtherException)) ?L ''book.pdf'' =
      (Inr ''Error extracting text from PDF.'', [FitzOpen])"
    using extract_text_from_pdf_result
      [of "sample_pdf_libs (Inl OtherException)" "''book.pdf''" _ _ ?L OtherException]
    by (simp add: sample_pdf_libs_def)
  from a b c show ?thesis by blast
qed

subsection \<open>Sentiment\<close>

lemma dropWhile_isspace_Nil: "dropWhile isspace s = [] \<longleftrightarrow> (\<forall>c\<in>set s. isspace c)"
  by (simp add: dropWhile_eq_Nil_conv)

text \<open>\<^verbatim>\<open>not s.strip()\<close> holds exactly for the strings of whitespace only.\<close>

lemma str_strip_Nil: "str_strip s = [] \<longleftrightarrow> (\<forall>c\<in>set s. isspace c)"
proof
  assume "\<forall>c\<in>set s. isspace c"
  then have d: "dropWhile isspace s = []"
    by (simp add: dropWhile_isspace_Nil)
  show "str_strip s = []"
    unfolding str_strip_def d by simp
next
  assume "str_strip s = []"
  then have "dropWhile isspace (rev (dropWhile isspace s)) = []"
    by (simp add: str_strip_def)
  then have all: "\<forall>c\<in>set (dropWhile isspace s). isspace c"
    unfolding dropWhile_isspace_Nil by simp
  have "dropWhile isspace s = []"
  proof (rule ccontr)
    assume ne: "dropWhile isspace s \<noteq> []"
    then have "\<not> isspace (hd (dropWhile isspace s))"
      by (rule hd_dropWhile)
    moreover have "hd (dropWhile isspace s) \<in> set (dropWhile isspace s)"
      using ne by simp
    ultimately show False using all by blast
  qed
  then show "\<forall>c\<in>set s. isspace c"
    by (simp add: dropWhile_isspace_Nil)
qed

text \<open>
  Claim C8. For a text that is empty or consists of whitespace only,
  \<^verbatim>\<open>get_sentiment\<close> returns \<^verbatim>\<open>Neutral\<close> and calls neither scorer, whatever the
  scorers are and whether or not the VADER analyser is there.
\<close>

theorem get_sentiment_blank:
  "(\<forall>c\<in>set text. isspace c) \<longrightarrow> get_sentiment S text = (Inr ''Neutral'', [])"
  by (simp add: get_sentiment_def str_strip_Nil SENTIMENT_NEUTRAL_def returns_def)

text \<open>
  The theorem on the empty text and on a text of a space, a tabulator and a newline, with
  the analyser present and absent.
\<close>

theorem get_sentiment_blank_witness:
  "get_sentiment (scripted_sentiment_libs (Inr 0.5) (Some (Inr [(''compound'', 0.5)]))) '''' =
     (Inr ''Neutral'', []) \<and>
   get_sentiment (scripted_sentiment_libs (Inr 0.5) None) [CHR 0x20, CHR 0x09, CHR 0x0A] =
     (Inr ''Neutral'', [])"
proof -
  have a: "get_sentiment (scripted_sentiment_libs (Inr 0.5) (Some (Inr [(''compound'', 0.5)])))
      '''' = (Inr ''Neutral'', [])"
    using get_sentiment_blank
      [of "''''" "scripted_sentiment_libs (Inr 0.5) (Some (Inr [(''compound'', 0.5)]))"]
    by simp
  have b: "get_sentiment (scripted_sentiment_libs (Inr 0.5) None)
      [CHR 0x20, CHR 0x09, CHR 0x0A] = (Inr ''Neutral'', [])"
    using get_sentiment_blank
      [of "[CHR 0x20, CHR 0x09, CHR 0x0A]" "scripted_sentiment_libs (Inr 0.5) None"]
    by (simp add: isspace_def whitespace_def)
  from a b show ?thesis by blast
qed

text \<open>Evaluating the rounding on a given number.\<close>

lemma exponent_below_numeral:
  "exponent_below (numeral k) a =
     (if 1 \<le> a then 0 else exponent_below (pred_numeral k) (2 * a) - 1)"
  by (simp add: numeral_eq_Suc)

lemma exponent_above_numeral:
  "exponent_above (numeral k) a =
     (if a < 2 then 0 else exponent_above (pred_numeral k) (a / 2) + 1)"
  by (simp add: numeral_eq_Suc)

lemmas float_eval = round_double_def double_exponent_def exponent_below_numeral
  exponent_above_numeral pow2_def round_half_even_def Let_def

text \<open>
  The literal \<^verbatim>\<open>0.05\<close> is the double \<open>3602879701896397 / 2 ^ 56\<close>, a little above 5/100.
\<close>

lemma literal_0_05_value: "literal_0_05 = Finite (3602879701896397 / 72057594037927936)"
  by (simp add: literal_0_05_def float_eval)

text \<open>
  The doubles nearest to some decimal numbers, and the averages the program computes
  from them.
\<close>

lemma round_double_samples:
  "round_double (1 / 2) = Finite (1 / 2)"
  "round_double (- (1 / 2)) = Finite (- (1 / 2))"
  "round_double 0 = Finite 0"
  "round_double (1 / 20) = Finite (3602879701896397 / 72057594037927936)"
  "round_double (1 / 25) = Finite (5764607523034235 / 144115188075855872)"
  "round_double (3 / 50) = Finite (1080863910568919 / 18014398509481984)"
  "round_double (1 / 100) = Finite (5764607523034235 / 576460752303423488)"
  "round_double (9 / 100) = Finite (3242591731706757 / 36028797018963968)"
  "round_double (- (1 / 25)) = Finite (- (5764607523034235 / 144115188075855872))"
  "round_double (- (3 / 50)) = Finite (- (1080863910568919 / 18014398509481984))"
  by (simp_all add: float_eval)

lemma average_samples:
  "float_div_2 (float_add (Finite (1 / 2)) (Finite (1 / 2))) = Finite (1 / 2)"
  "float_div_2 (float_add (Finite (- (1 / 2))) (Finite (- (1 / 2)))) = Finite (- (1 / 2))"
  "float_div_2 (float_add (Finite 0) (Finite 0)) = Finite 0"
  "float_div_2 (float_add (Finite (5764607523034235 / 144115188075855872))
       (Finite (1080863910568919 / 18014398509481984))) =
     Finite (3602879701896397 / 72057594037927936)"
  "float_div_2 (float_add (Finite (5764607523034235 / 576460752303423488))
       (Finite (3242591731706757 / 36028797018963968))) =
     Finite (7205759403792793 / 144115188075855872)"
  "float_div_2 (float_add (Finite (- (5764607523034235 / 144115188075855872)))
       (Finite (- (1080863910568919 / 18014398509481984)))) =
     Finite (- (3602879701896397 / 72057594037927936))"
  by (simp_all add: float_eval)

text \<open>No float is both at least \<^verbatim>\<open>0.05\<close> and at most \<^verbatim>\<open>-0.05\<close>.\<close>

lemma thresholds_exclusive:
  "float_le x (float_neg literal_0_05) \<Longrightarrow> \<not> float_ge x literal_0_05"
  by (cases x) (simp_all add: literal_0_05_value float_ge_def)

text \<open>Powers of two, and what the search for the exponent finds.\<close>

lemma pow2_powr: "pow2 k = 2 powr (of_int k)"
proof (cases "0 \<le> k")
  case True
  then have "pow2 k = 2 ^ nat k" by (simp add: pow2_def)
  also have "\<dots> = 2 powr (real (nat k))" by (simp add: powr_realpow)
  also have "real (nat k) = of_int k" using True by simp
  finally show ?thesis .
next
  case False
  then have "pow2 k = 1 / 2 ^ nat (- k)" by (simp add: pow2_def)
  also have "\<dots> = 1 / 2 powr (real (nat (- k)))" by (simp add: powr_realpow)
  also have "real (nat (- k)) = - of_int k" using False by simp
  also have "1 / 2 powr (- real_of_int k) = 2 powr (of_int k)"
    by (simp add: powr_minus divide_inverse)
  finally show ?thesis .
qed

lemma pow2_pos: "0 < pow2 k"
  by (simp add: pow2_powr)

lemma pow2_add: "pow2 (j + k) = pow2 j * pow2 k"
  by (simp add: pow2_powr powr_add)

lemma pow2_mono: "j \<le> k \<Longrightarrow> pow2 j \<le> pow2 k"
  by (simp add: pow2_powr)

lemma exponent_below_lower: "1 \<le> a * 2 ^ k \<Longrightarrow> - int k \<le> exponent_below n a"
proof (induction n arbitrary: a k)
  case 0
  then show ?case by simp
next
  case (Suc n)
  show ?case
  proof (cases "1 \<le> a")
    case True
    then show ?thesis by simp
  next
    case False
    with Suc.prems obtain j where k: "k = Suc j"
      by (cases k) auto
    with Suc.prems have "1 \<le> (2 * a) * 2 ^ j" by simp
    then have "- int j \<le> exponent_below n (2 * a)" by (rule Suc.IH)
    with False k show ?thesis by simp
  qed
qed

lemma exponent_below_upper: "1 \<le> a * 2 ^ n \<Longrightarrow> pow2 (exponent_below n a) \<le> a"
proof (induction n arbitrary: a)
  case 0
  then show ?case by (simp add: pow2_def)
next
  case (Suc n)
  show ?case
  proof (cases "1 \<le> a")
    case True
    then show ?thesis by (simp add: pow2_def)
  next
    case False
    from Suc.prems have "1 \<le> (2 * a) * 2 ^ n" by simp
    then have "pow2 (exponent_below n (2 * a)) \<le> 2 * a" by (rule Suc.IH)
    moreover have "pow2 (exponent_below n (2 * a) - 1) = pow2 (exponent_below n (2 * a)) / 2"
      using pow2_add [of "exponent_below n (2 * a)" "- 1"] by (simp add: pow2_def)
    ultimately show ?thesis using False by simp
  qed
qed

lemma exponent_above_nonneg: "0 \<le> exponent_above n a"
  by (induction n arbitrary: a) auto

lemma exponent_above_lower: "2 ^ k \<le> a \<Longrightarrow> k \<le> n \<Longrightarrow> int k \<le> exponent_above n a"
proof (induction n arbitrary: a k)
  case 0
  then show ?case by simp
next
  case (Suc n)
  show ?case
  proof (cases k)
    case 0
    then show ?thesis using exponent_above_nonneg [of "Suc n" a] by simp
  next
    case (Suc j)
    with Suc.prems have a: "2 ^ j \<le> a / 2" and j: "j \<le> n" by simp_all
    have "(2::real) \<le> 2 ^ k" using Suc by simp
    with Suc.prems have "\<not> a < 2" by simp
    moreover from a j have "int j \<le> exponent_above n (a / 2)" by (rule Suc.IH)
    ultimately show ?thesis using Suc by simp
  qed
qed

lemma exponent_above_upper: "1 \<le> a \<Longrightarrow> pow2 (exponent_above n a) \<le> a"
proof (induction n arbitrary: a)
  case 0
  then show ?case by (simp add: pow2_def)
next
  case (Suc n)
  show ?case
  proof (cases "a < 2")
    case True
    then show ?thesis using Suc.prems by (simp add: pow2_def)
  next
    case False
    then have "1 \<le> a / 2" by simp
    then have "pow2 (exponent_above n (a / 2)) \<le> a / 2" by (rule Suc.IH)
    moreover have "pow2 (exponent_above n (a / 2) + 1) = pow2 (exponent_above n (a / 2)) * 2"
      using pow2_add [of "exponent_above n (a / 2)" 1] by (simp add: pow2_def)
    ultimately show ?thesis using False by simp
  qed
qed

lemma double_exponent_upper:
  assumes "pow2 (- 1022) \<le> a"
  shows "pow2 (double_exponent a) \<le> a"
proof (cases "a < 1")
  case True
  from assms have "1 \<le> a * 2 ^ 1022"
    by (simp add: pow2_def field_simps)
  then have "pow2 (exponent_below 1022 a) \<le> a" by (rule exponent_below_upper)
  with True show ?thesis by (simp add: double_exponent_def)
next
  case False
  then have "pow2 (exponent_above 1024 a) \<le> a" by (intro exponent_above_upper) simp
  with False show ?thesis by (simp add: double_exponent_def)
qed

lemma double_exponent_lower:
  assumes "pow2 e \<le> a" and "e \<le> 1024"
  shows "e \<le> double_exponent a"
proof (cases "a < 1")
  case True
  show ?thesis
  proof (cases "0 \<le> e")
    case True
    then have "1 \<le> pow2 e" by (simp add: pow2_def)
    with assms \<open>a < 1\<close> show ?thesis by simp
  next
    case False
    then have "pow2 e = 1 / 2 ^ nat (- e)" by (simp add: pow2_def)
    with assms have "1 \<le> a * 2 ^ nat (- e)" by (simp add: field_simps)
    then have "- int (nat (- e)) \<le> exponent_below 1022 a" by (rule exponent_below_lower)
    with False \<open>a < 1\<close> show ?thesis by (simp add: double_exponent_def)
  qed
next
  case False
  show ?thesis
  proof (cases "0 \<le> e")
    case True
    then have "pow2 e = 2 ^ nat e" by (simp add: pow2_def)
    with assms have "2 ^ nat e \<le> a" by simp
    moreover have "nat e \<le> 1024" using assms by simp
    ultimately have "int (nat e) \<le> exponent_above 1024 a" by (rule exponent_above_lower)
    with True False show ?thesis by (simp add: double_exponent_def)
  next
    case e: False
    with exponent_above_nonneg [of 1024 a] False show ?thesis
      by (simp add: double_exponent_def)
  qed
qed

text \<open>
  Rounding never goes below a double that the number reaches: a double is
  \<open>m * pow2 (e - 52)\<close> with a significand \<open>m\<close> of 53 bits.
\<close>

lemma round_half_even_lower: "of_int n \<le> x \<Longrightarrow> n \<le> round_half_even x"
proof -
  assume "of_int n \<le> x"
  then have "n \<le> \<lfloor>x\<rfloor>" by (simp add: le_floor_iff)
  then show ?thesis by (simp add: round_half_even_def)
qed

lemma round_half_even_minus: "round_half_even (- x) = - round_half_even x"
proof (cases "x = of_int \<lfloor>x\<rfloor>")
  case True
  then obtain n where "x = of_int n" ..
  then show ?thesis by (simp add: round_half_even_def)
next
  case False
  then have f: "\<lfloor>- x\<rfloor> = - \<lfloor>x\<rfloor> - 1"
    by (metis add.commute add_uminus_conv_diff ceiling_altdef ceiling_def minus_add_distrib minus_minus)
  show ?thesis
    unfolding round_half_even_def f by auto
qed


lemma pow2_52: "pow2 (e - 52) * 4503599627370496 = pow2 e"
proof -
  have "pow2 52 = 4503599627370496" by (simp add: pow2_def)
  then show ?thesis using pow2_add [of "e - 52" 52] by simp
qed

lemma pow2_53: "pow2 (e - 52) * 9007199254740992 = pow2 (e + 1)"
proof -
  have "pow2 53 = 9007199254740992" by (simp add: pow2_def)
  then show ?thesis using pow2_add [of "e - 52" 53] by (simp add: add.commute)
qed

lemma round_double_lower:
  assumes m: "4503599627370496 \<le> m" "m < 9007199254740992"
    and e: "- 1022 \<le> e" "e \<le> 1023"
    and x: "of_int m * pow2 (e - 52) \<le> x"
  shows "float_le (Finite (of_int m * pow2 (e - 52))) (round_double x)"
proof -
  define d where "d = of_int m * pow2 (e - 52)"
  define k where "k = double_exponent \<bar>x\<bar>"
  define ulp where "ulp = pow2 (k - 52)"
  define y where "y = ulp * of_int (round_half_even (x / ulp))"
  have ulp: "0 < ulp" by (simp add: ulp_def pow2_pos)
  have "4503599627370496 \<le> real_of_int m" using m(1) by simp
  then have "pow2 (e - 52) * 4503599627370496 \<le> pow2 (e - 52) * of_int m"
    using pow2_pos [of "e - 52"] by (simp only: mult_le_cancel_left_pos)
  then have d_lower: "pow2 e \<le> d" by (simp only: pow2_52 d_def mult.commute)
  have "real_of_int m < 9007199254740992" using m(2) by simp
  then have "pow2 (e - 52) * of_int m < pow2 (e - 52) * 9007199254740992"
    using pow2_pos [of "e - 52"] by (simp only: mult_less_cancel_left_pos)
  then have d_upper: "d < pow2 (e + 1)" by (simp only: pow2_53 d_def mult.commute)
  have dpos: "0 < d" using pow2_pos [of e] d_lower by simp
  have xd: "d \<le> x" using x by (simp only: d_def)
  have xpos: "0 < x" using dpos xd by simp
  then have ax: "\<bar>x\<bar> = x" by simp
  have "pow2 e \<le> x" using d_lower xd by simp
  then have ek: "e \<le> k"
    unfolding k_def ax using e by (intro double_exponent_lower) simp_all
  have "pow2 (- 1022) \<le> pow2 e" using e by (intro pow2_mono) simp
  then have "pow2 (- 1022) \<le> x" using d_lower xd by simp
  then have kx: "pow2 k \<le> x"
    unfolding k_def ax by (rule double_exponent_upper)
  have "d \<le> y"
  proof (cases "e = k")
    case True
    have "of_int m = d / ulp" using ulp by (simp add: d_def ulp_def True)
    also have "\<dots> \<le> x / ulp" using xd ulp by (simp add: divide_right_mono)
    finally have "m \<le> round_half_even (x / ulp)" by (rule round_half_even_lower)
    then have "ulp * of_int m \<le> y" using ulp by (simp add: y_def)
    then show ?thesis by (simp add: d_def ulp_def True mult.commute)
  next
    case False
    with ek have "e + 1 \<le> k" by simp
    then have ek1: "pow2 (e + 1) \<le> pow2 k" by (rule pow2_mono)
    have "of_int 4503599627370496 = pow2 k / ulp"
      using ulp pow2_52 [of k] by (simp add: ulp_def field_simps)
    also have "\<dots> \<le> x / ulp" using kx ulp by (simp add: divide_right_mono)
    finally have "4503599627370496 \<le> round_half_even (x / ulp)"
      by (rule round_half_even_lower)
    then have "4503599627370496 \<le> real_of_int (round_half_even (x / ulp))"
      by simp
    then have "ulp * 4503599627370496 \<le> y"
      using ulp unfolding y_def by (simp only: mult_le_cancel_left_pos)
    then have "pow2 k \<le> y" by (simp only: pow2_52 ulp_def)
    with ek1 d_upper show ?thesis by simp
  qed
  with dpos show ?thesis
    unfolding round_double_def Let_def k_def [symmetric] ulp_def [symmetric] y_def [symmetric]
      d_def [symmetric]
    by simp
qed

lemma round_double_minus: "round_double (- x) = float_neg (round_double x)"
  by (simp add: round_double_def Let_def round_half_even_minus)


text \<open>
  Two scores that are both at least \<^verbatim>\<open>0.05\<close> have a computed average of at least
  \<^verbatim>\<open>0.05\<close>, and likewise at most \<^verbatim>\<open>-0.05\<close>: the doubles \<^verbatim>\<open>0.05\<close> and \<^verbatim>\<open>0.1\<close> are
  \<open>7205759403792794 * pow2 (- 57)\<close> and \<open>7205759403792794 * pow2 (- 56)\<close>.
\<close>

lemma float_le_neg: "float_le (Finite d) (float_neg r) \<longleftrightarrow> float_le r (Finite (- d))"
  by (cases r) auto

lemma round_double_at_least_0_05:
  assumes "3602879701896397 / 72057594037927936 \<le> x"
  shows "float_le (Finite (3602879701896397 / 72057594037927936)) (round_double x)"
  using assms round_double_lower [of 7205759403792794 "- 5" x] by (simp add: pow2_def)

lemma round_double_at_least_0_1:
  assumes "3602879701896397 / 36028797018963968 \<le> x"
  shows "float_le (Finite (3602879701896397 / 36028797018963968)) (round_double x)"
  using assms round_double_lower [of 7205759403792794 "- 4" x] by (simp add: pow2_def)

lemma round_double_at_most_0_05:
  assumes "x \<le> - (3602879701896397 / 72057594037927936)"
  shows "float_le (round_double x) (Finite (- (3602879701896397 / 72057594037927936)))"
  using assms round_double_at_least_0_05 [of "- x"]
  by (simp add: round_double_minus float_le_neg)

lemma round_double_at_most_0_1:
  assumes "x \<le> - (3602879701896397 / 36028797018963968)"
  shows "float_le (round_double x) (Finite (- (3602879701896397 / 36028797018963968)))"
  using assms round_double_at_least_0_1 [of "- x"]
  by (simp add: round_double_minus float_le_neg)

lemma average_at_least:
  assumes "float_ge b literal_0_05" and "float_ge v literal_0_05"
  shows "float_ge (float_div_2 (float_add b v)) literal_0_05"
proof (cases b)
  case b: (Finite x)
  show ?thesis
  proof (cases v)
    case v: (Finite y)
    from assms have "3602879701896397 / 36028797018963968 \<le> x + y"
      by (simp add: b v float_ge_def literal_0_05_value)
    then have s: "float_le (Finite (3602879701896397 / 36028797018963968)) (round_double (x + y))"
      by (rule round_double_at_least_0_1)
    show ?thesis
    proof (cases "round_double (x + y)")
      case (Finite z)
      with s have "3602879701896397 / 72057594037927936 \<le> z / 2" by simp
      then have "float_le (Finite (3602879701896397 / 72057594037927936)) (round_double (z / 2))"
        by (rule round_double_at_least_0_05)
      then show ?thesis by (simp add: b v Finite float_ge_def literal_0_05_value)
    qed (use s in \<open>simp_all add: b v float_ge_def literal_0_05_value\<close>)
  qed (use assms in \<open>simp_all add: b float_ge_def literal_0_05_value\<close>)
next
  case PosInf
  with assms show ?thesis by (cases v) (simp_all add: float_ge_def literal_0_05_value)
qed (use assms in \<open>simp_all add: float_ge_def literal_0_05_value\<close>)

lemma average_at_most:
  assumes "float_le b (float_neg literal_0_05)" and "float_le v (float_neg literal_0_05)"
  shows "float_le (float_div_2 (float_add b v)) (float_neg literal_0_05)"
proof (cases b)
  case b: (Finite x)
  show ?thesis
  proof (cases v)
    case v: (Finite y)
    from assms have "x + y \<le> - (3602879701896397 / 36028797018963968)"
      by (simp add: b v literal_0_05_value)
    then have s: "float_le (round_double (x + y)) (Finite (- (3602879701896397 / 36028797018963968)))"
      by (rule round_double_at_most_0_1)
    show ?thesis
    proof (cases "round_double (x + y)")
      case (Finite z)
      with s have "z / 2 \<le> - (3602879701896397 / 72057594037927936)" by simp
      then have "float_le (round_double (z / 2)) (Finite (- (3602879701896397 / 72057594037927936)))"
        by (rule round_double_at_most_0_05)
      then show ?thesis by (simp add: b v Finite literal_0_05_value)
    qed (use s in \<open>simp_all add: b v literal_0_05_value\<close>)
  qed (use assms in \<open>simp_all add: b literal_0_05_value\<close>)
next
  case NegInf
  with assms show ?thesis by (cases v) (simp_all add: literal_0_05_value)
qed (use assms in \<open>simp_all add: literal_0_05_value\<close>)

lemma get_sentiment_both:
  assumes "str_strip text \<noteq> []" and "analyzer S = Some polarity_scores"
    and "textblob_polarity S text = Inr b" and "polarity_scores text = Inr scores"
    and "map_of scores ''compound'' = Some v"
  shows "get_sentiment S text =
     (Inr (if float_ge (float_div_2 (float_add b v)) literal_0_05 then ''Positive''
           else if float_le (float_div_2 (float_add b v)) (float_neg literal_0_05)
           then ''Negative'' else ''Neutral''),
      [TextBlobPolarity, VaderPolarityScores])"
  using assms
  by (simp add: get_sentiment_def dict_get_def returns_def SENTIMENT_POSITIVE_def
      SENTIMENT_NEGATIVE_def SENTIMENT_NEUTRAL_def)

lemma get_sentiment_primary_only:
  assumes "str_strip text \<noteq> []" and "analyzer S = None"
    and "textblob_polarity S text = Inr b"
  shows "get_sentiment S text =
     (Inr (if float_ge b literal_0_05 then ''Positive''
           else if float_le b (float_neg literal_0_05) then ''Negative'' else ''Neutral''),
      [TextBlobPolarity])"
  using assms
  by (simp add: get_sentiment_def returns_def SENTIMENT_POSITIVE_def
      SENTIMENT_NEGATIVE_def SENTIMENT_NEUTRAL_def)

lemma get_sentiment_returns: "\<exists>s. fst (get_sentiment S text) = Inr s"
  by (auto simp: get_sentiment_def intro: except_total split: option.splits)

text \<open>
  Claim C7. For a text that is not blank: with both scorers, the program adds the
  TextBlob polarity and the VADER compound score and halves the sum, in floating-point
  arithmetic, and the label is \<^verbatim>\<open>Positive\<close> when this average is at least the float
  \<^verbatim>\<open>0.05\<close>, \<^verbatim>\<open>Negative\<close> when it is at most \<^verbatim>\<open>-0.05\<close>, and \<^verbatim>\<open>Neutral\<close> in every
  other case (an average between the thresholds, or NaN); when the VADER analyser is
  absent, only TextBlob is called and its polarity is classified by the same thresholds;
  and when a scorer raises, or the scores have no \<^verbatim>\<open>compound\<close> entry, the result is
  the fixed error string. No exception leaves the function. The average and the
  comparisons are those of the machine: the sum and its half are rounded to the nearest
  double, and \<^verbatim>\<open>0.05\<close> is the double nearest to 5/100. Rounding does not break the
  classification of two scores on the same side: when both are at least \<^verbatim>\<open>0.05\<close>
  the label is \<^verbatim>\<open>Positive\<close>, and when both are at most \<^verbatim>\<open>-0.05\<close> it is
  \<^verbatim>\<open>Negative\<close>.
\<close>

theorem get_sentiment_classification:
  "(\<exists>s. fst (get_sentiment S text) = Inr s) \<and>
   (str_strip text \<noteq> [] \<longrightarrow>
     (analyzer S = Some polarity_scores \<longrightarrow> textblob_polarity S text = Inr b \<longrightarrow>
      polarity_scores text = Inr scores \<longrightarrow> map_of scores ''compound'' = Some v \<longrightarrow>
        snd (get_sentiment S text) = [TextBlobPolarity, VaderPolarityScores] \<and>
        (float_ge (float_div_2 (float_add b v)) literal_0_05 \<longrightarrow>
           fst (get_sentiment S text) = Inr ''Positive'') \<and>
        (float_le (float_div_2 (float_add b v)) (float_neg literal_0_05) \<longrightarrow>
           fst (get_sentiment S text) = Inr ''Negative'') \<and>
        (\<not> float_ge (float_div_2 (float_add b v)) literal_0_05 \<longrightarrow>
         \<not> float_le (float_div_2 (float_add b v)) (float_neg literal_0_05) \<longrightarrow>
           fst (get_sentiment S text) = Inr ''Neutral'') \<and>
        (float_ge b literal_0_05 \<longrightarrow> float_ge v literal_0_05 \<longrightarrow>
           fst (get_sentiment S text) = Inr ''Positive'') \<and>
        (float_le b (float_neg literal_0_05) \<longrightarrow> float_le v (float_neg literal_0_05) \<longrightarrow>
           fst (get_sentiment S text) = Inr ''Negative'')) \<and>
     (analyzer S = None \<longrightarrow> textblob_polarity S text = Inr b \<longrightarrow>
        snd (get_sentiment S text) = [TextBlobPolarity] \<and>
        (float_ge b literal_0_05 \<longrightarrow> fst (get_sentiment S text) = Inr ''Positive'') \<and>
        (float_le b (float_neg literal_0_05) \<longrightarrow>
           fst (get_sentiment S text) = Inr ''Negative'') \<and>
        (\<not> float_ge b literal_0_05 \<longrightarrow> \<not> float_le b (float_neg literal_0_05) \<longrightarrow>
           fst (get_sentiment S text) = Inr ''Neutral'')) \<and>
     (textblob_polarity S text = Inl e \<longrightarrow>
        get_sentiment S text = (Inr ''Error in sentiment analysis'', [TextBlobPolarity])) \<and>
     (analyzer S = Some polarity_scores \<longrightarrow> textblob_polarity S text = Inr b \<longrightarrow>
      polarity_scores text = Inl e \<longrightarrow>
        get_sentiment S text =
          (Inr ''Error in sentiment analysis'', [TextBlobPolarity, VaderPolarityScores])) \<and>
     (analyzer S = Some polarity_scores \<longrightarrow> textblob_polarity S text = Inr b \<longrightarrow>
      polarity_scores text = Inr scores \<longrightarrow> map_of scores ''compound'' = None \<longrightarrow>
        get_sentiment S text =
          (Inr ''Error in sentiment analysis'', [TextBlobPolarity, VaderPolarityScores])))"
proof (intro conjI impI)
  show "\<exists>s. fst (get_sentiment S text) = Inr s"
    by (rule get_sentiment_returns)
next
  assume "str_strip text \<noteq> []" "textblob_polarity S text = Inl e"
  then show "get_sentiment S text = (Inr ''Error in sentiment analysis'', [TextBlobPolarity])"
    by (simp add: get_sentiment_def returns_def split: option.splits)
next
  assume "str_strip text \<noteq> []" "analyzer S = Some polarity_scores"
    "textblob_polarity S text = Inr b" "polarity_scores text = Inl e"
  then show "get_sentiment S text =
      (Inr ''Error in sentiment analysis'', [TextBlobPolarity, VaderPolarityScores])"
    by (simp add: get_sentiment_def returns_def)
next
  assume "str_strip text \<noteq> []" "analyzer S = Some polarity_scores"
    "textblob_polarity S text = Inr b" "polarity_scores text = Inr scores"
    "map_of scores ''compound'' = None"
  then show "get_sentiment S text =
      (Inr ''Error in sentiment analysis'', [TextBlobPolarity, VaderPolarityScores])"
    by (simp add: get_sentiment_def dict_get_def returns_def)
qed (simp_all add: get_sentiment_both get_sentiment_primary_only thresholds_exclusive
    average_at_least average_at_most)

text \<open>
  The theorem on scorers that answer 0.5 and 0.5, -0.5 and -0.5, 0 and 0; on scorers
  whose average is at a threshold: the doubles nearest to 0.04 and 0.06 (their sum is
  rounded to the double \<^verbatim>\<open>0.1\<close>, whose half is the double \<^verbatim>\<open>0.05\<close>), to 0.01 and 0.09
  (the half of their rounded sum is the double just below \<^verbatim>\<open>0.05\<close>), and to -0.04 and
  -0.06; on TextBlob alone answering 0.5, 0.05 and NaN; and on scorers that raise or
  give no \<^verbatim>\<open>compound\<close> entry.
\<close>

theorem get_sentiment_classification_witness:
  "get_sentiment (scripted_sentiment_libs (Inr 0.5) (Some (Inr [(''compound'', 0.5)])))
     ''good'' = (Inr ''Positive'', [TextBlobPolarity, VaderPolarityScores]) \<and>
   get_sentiment (scripted_sentiment_libs (Inr (- 0.5)) (Some (Inr [(''compound'', - 0.5)])))
     ''bad'' = (Inr ''Negative'', [TextBlobPolarity, VaderPolarityScores]) \<and>
   get_sentiment (scripted_sentiment_libs (Inr 0) (Some (Inr [(''compound'', 0)])))
     ''so-so'' = (Inr ''Neutral'', [TextBlobPolarity, VaderPolarityScores]) \<and>
   get_sentiment (scripted_sentiment_libs (Inr 0.04) (Some (Inr [(''compound'', 0.06)])))
     ''fine'' = (Inr ''Positive'', [TextBlobPolarity, VaderPolarityScores]) \<and>
   get_sentiment (scripted_sentiment_libs (Inr 0.01) (Some (Inr [(''compound'', 0.09)])))
     ''fine'' = (Inr ''Neutral'', [TextBlobPolarity, VaderPolarityScores]) \<and>
   get_sentiment (scripted_sentiment_libs (Inr (- 0.04)) (Some (Inr [(''compound'', - 0.06)])))
     ''poor'' = (Inr ''Negative'', [TextBlobPolarity, VaderPolarityScores]) \<and>
   get_sentiment (scripted_sentiment_libs (Inr 0.5) None) ''good'' =
     (Inr ''Positive'', [TextBlobPolarity]) \<and>
   get_sentiment (scripted_sentiment_libs (Inr 0.05) None) ''fine'' =
     (Inr ''Positive'', [TextBlobPolarity]) \<and>
   get_sentiment \<lparr>textblob_polarity = (\<lambda>text. Inr NaN), analyzer = None\<rparr> ''odd'' =
     (Inr ''Neutral'', [TextBlobPolarity]) \<and>
   get_sentiment (scripted_sentiment_libs (Inl OtherException) None) ''good'' =
     (Inr ''Error in sentiment analysis'', [TextBlobPolarity]) \<and>
   get_sentiment (scripted_sentiment_libs (Inr 0.5) (Some (Inl OtherException))) ''good'' =
     (Inr ''Error in sentiment analysis'', [TextBlobPolarity, VaderPolarityScores]) \<and>
   get_sentiment (scripted_sentiment_libs (Inr 0.5) (Some (Inr []))) ''good'' =
     (Inr ''Error in sentiment analysis'', [TextBlobPolarity, VaderPolarityScores])"
proof -
  note t = get_sentiment_classification
  note ev = scripted_sentiment_libs_def prod_eq_iff isspace_def whitespace_def str_strip_def
    round_double_samples average_samples float_ge_def literal_0_05_value
  have a: "get_sentiment (scripted_sentiment_libs (Inr 0.5) (Some (Inr [(''compound'', 0.5)])))
      ''good'' = (Inr ''Positive'', [TextBlobPolarity, VaderPolarityScores])"
    using t [of "scripted_sentiment_libs (Inr 0.5) (Some (Inr [(''compound'', 0.5)]))"
        "''good''"
        "\<lambda>text. Inr [(''compound'', round_double 0.5)]"
        "round_double 0.5"
        "[(''compound'', round_double 0.5)]"
        "round_double 0.5"
        OtherException]
    by (simp add: ev del: float_add.simps)
  have b: "get_sentiment
      (scripted_sentiment_libs (Inr (- 0.5)) (Some (Inr [(''compound'', - 0.5)])))
      ''bad'' = (Inr ''Negative'', [TextBlobPolarity, VaderPolarityScores])"
    using t [of "scripted_sentiment_libs (Inr (- 0.5)) (Some (Inr [(''compound'', - 0.5)]))"
        "''bad''"
        "\<lambda>text. Inr [(''compound'', round_double (- 0.5))]"
        "round_double (- 0.5)"
        "[(''compound'', round_double (- 0.5))]"
        "round_double (- 0.5)"
        OtherException]
    by (simp add: ev del: float_add.simps)
  have c: "get_sentiment (scripted_sentiment_libs (Inr 0) (Some (Inr [(''compound'', 0)])))
      ''so-so'' = (Inr ''Neutral'', [TextBlobPolarity, VaderPolarityScores])"
    using t [of "scripted_sentiment_libs (Inr 0) (Some (Inr [(''compound'', 0)]))"
        "''so-so''"
        "\<lambda>text. Inr [(''compound'', round_double 0)]"
        "round_double 0"
        "[(''compound'', round_double 0)]"
        "round_double 0"
        OtherException]
    by (simp add: ev del: float_add.simps)
  have d: "get_sentiment (scripted_sentiment_libs (Inr 0.04) (Some (Inr [(''compound'', 0.06)])))
      ''fine'' = (Inr ''Positive'', [TextBlobPolarity, VaderPolarityScores])"
    using t [of "scripted_sentiment_libs (Inr 0.04) (Some (Inr [(''compound'', 0.06)]))"
        "''fine''"
        "\<lambda>text. Inr [(''compound'', round_double 0.06)]"
        "round_double 0.04"
        "[(''compound'', round_double 0.06)]"
        "round_double 0.06"
        OtherException]
    by (simp add: ev del: float_add.simps)
  have e: "get_sentiment (scripted_sentiment_libs (Inr 0.01) (Some (Inr [(''compound'', 0.09)])))
      ''fine'' = (Inr ''Neutral'', [TextBlobPolarity, VaderPolarityScores])"
    using t [of "scripted_sentiment_libs (Inr 0.01) (Some (Inr [(''compound'', 0.09)]))"
        "''fine''"
        "\<lambda>text. Inr [(''compound'', round_double 0.09)]"
        "round_double 0.01"
        "[(''compound'', round_double 0.09)]"
        "round_double 0.09"
        OtherException]
    by (simp add: ev del: float_add.simps)
  have f: "get_sentiment
      (scripted_sentiment_libs (Inr (- 0.04)) (Some (Inr [(''compound'', - 0.06)])))
      ''poor'' = (Inr ''Negative'', [TextBlobPolarity, VaderPolarityScores])"
    using t [of "scripted_sentiment_libs (Inr (- 0.04)) (Some (Inr [(''compound'', - 0.06)]))"
        "''poor''"
        "\<lambda>text. Inr [(''compound'', round_double (- 0.06))]"
        "round_double (- 0.04)"
        "[(''compound'', round_double (- 0.06))]"
        "round_double (- 0.06)"
        OtherException]
    by (simp add: ev del: float_add.simps)
  have g: "get_sentiment (scripted_sentiment_libs (Inr 0.5) None) ''good'' =
      (Inr ''Positive'', [TextBlobPolarity])"
    using t [of "scripted_sentiment_libs (Inr 0.5) None"
        "''good''"
        "\<lambda>text. Inr []"
        "round_double 0.5"
        "[]"
        NaN
        OtherException]
    by (simp add: ev del: float_add.simps)
  have h: "get_sentiment (scripted_sentiment_libs (Inr 0.05) None) ''fine'' =
      (Inr ''Positive'', [TextBlobPolarity])"
    using t [of "scripted_sentiment_libs (Inr 0.05) None"
        "''fine''"
        "\<lambda>text. Inr []"
        "round_double 0.05"
        "[]"
        NaN
        OtherException]
    by (simp add: ev del: float_add.simps)
  have i: "get_sentiment \<lparr>textblob_polarity = (\<lambda>text. Inr NaN), analyzer = None\<rparr> ''odd'' =
      (Inr ''Neutral'', [TextBlobPolarity])"
    using t [of "\<lparr>textblob_polarity = (\<lambda>text. Inr NaN), analyzer = None\<rparr>"
        "''odd''"
        "\<lambda>text. Inr []"
        NaN
        "[]"
        NaN
        OtherException]
    by (simp add: ev del: float_add.simps)
  have j: "get_sentiment (scripted_sentiment_libs (Inl OtherException) None) ''good'' =
      (Inr ''Error in sentiment analysis'', [TextBlobPolarity])"
    using t [of "scripted_sentiment_libs (Inl OtherException) None"
        "''good''"
        "\<lambda>text. Inr []"
        NaN
        "[]"
        NaN
        OtherException]
    by (simp add: ev del: float_add.simps)
  have k: "get_sentiment (scripted_sentiment_libs (Inr 0.5) (Some (Inl OtherException)))
      ''good'' = (Inr ''Error in sentiment analysis'', [TextBlobPolarity, VaderPolarityScores])"
    using t [of "scripted_sentiment_libs (Inr 0.5) (Some (Inl OtherException))"
        "''good''"
        "\<lambda>text. Inl OtherException"
        "round_double 0.5"
        "[]"
        NaN
        OtherException]
    by (simp add: ev del: float_add.simps)
  have l: "get_sentiment (scripted_sentiment_libs (Inr 0.5) (Some (Inr []))) ''good'' =
      (Inr ''Error in sentiment analysis'', [TextBlobPolarity, VaderPolarityScores])"
    using t [of "scripted_sentiment_libs (Inr 0.5) (Some (Inr []))"
        "''good''"
        "\<lambda>text. Inr []"
        "round_double 0.5"
        "[]"
        NaN
        OtherException]
    by (simp add: ev del: float_add.simps)
  from a b c d e f g h i j k l show ?thesis by blast
qed

subsection \<open>Summarisation: the loop over the chunks\<close>

lemma summarize_chunk_closed:
  "summarize_chunk summarizer i chunk summary_parts =
     (Inr (summary_parts @ chunk_contribution summarizer i chunk), [SummarizerCall i chunk])"
  by (simp add: summarize_chunk_def chunk_contribution_def returns_def
      split: sum.splits list.splits option.splits)

lemma summarize_loop_closed:
  "summarize_loop summarizer ics summary_parts =
     (Inr (summary_parts @ concat (map (\<lambda>ic. chunk_contribution summarizer (fst ic) (snd ic)) ics)),
      map (\<lambda>ic. SummarizerCall (fst ic) (snd ic)) ics)"
  by (induction ics arbitrary: summary_parts) (simp_all add: returns_def summarize_chunk_closed)

text \<open>
  Claim C9. When the summarisation model failed to load, \<^verbatim>\<open>generate_summary\<close>
  returns the unavailability message for every text, blank or not, and calls nothing.
\<close>

theorem generate_summary_unavailable:
  "generate_summary None text =
     (Inr ''Summary generation service is currently unavailable.'', [])"
  by (simp add: generate_summary_def returns_def)

subsection \<open>Chunking\<close>

lemma concat_slices:
  "concat (map (\<lambda>k. take c (drop (k * c) s)) [0..<n]) = take (n * c) s"
proof (induction n)
  case 0
  show ?case by simp
next
  case (Suc n)
  have "take (n * c) s @ take c (drop (n * c) s) = take (n * c + c) s"
    by (simp add: take_add)
  with Suc show ?case by (simp add: add.commute)
qed

lemma chunks_as_slices:
  "map (\<lambda>i. slice s i (i + c)) (py_range 0 (length s) c) =
     map (\<lambda>k. take c (drop (k * c) s)) [0..<(length s + c - 1) div c]"
  by (simp add: py_range_def slice_def comp_def)

lemma ceil_div_covers:
  assumes "0 < c"
  shows "n \<le> ((n + c - 1) div c) * (c::nat)"
proof -
  have "n + c - 1 = ((n + c - 1) div c) * c + (n + c - 1) mod c"
    by simp
  moreover have "(n + c - 1) mod c \<le> c - 1"
    using assms by (simp add: less_Suc_eq_le [symmetric])
  ultimately show ?thesis using assms by linarith
qed

lemma ceil_div_tight:
  assumes "0 < c" and "k < (n + c - 1) div c"
  shows "k * c < (n::nat)"
proof -
  have "Suc k \<le> (n + c - 1) div c"
    using assms by simp
  then have "Suc k * c \<le> ((n + c - 1) div c) * c"
    by (rule mult_le_mono1)
  also have "\<dots> \<le> n + c - 1"
    by simp
  finally show ?thesis using assms by simp
qed

lemma concat_char_chunks: "concat (char_chunks s) = s"
proof -
  have "length s \<le> ((length s + 4096 - 1) div 4096) * 4096"
    by (rule ceil_div_covers) simp
  then show ?thesis
    by (simp add: char_chunks_def chunks_as_slices concat_slices MAX_CHUNK_SIZE_TOKENS_def)
qed

lemma length_char_chunks: "length (char_chunks s) = (length s + 4095) div 4096"
  by (simp add: char_chunks_def py_range_def MAX_CHUNK_SIZE_TOKENS_def)

lemma nth_char_chunks:
  assumes "k < length (char_chunks s)"
  shows "char_chunks s ! k = take 4096 (drop (k * 4096) s)"
  using assms
  by (simp add: char_chunks_def py_range_def slice_def MAX_CHUNK_SIZE_TOKENS_def)

lemma char_chunk_nonempty:
  assumes "k < length (char_chunks s)"
  shows "0 < length (char_chunks s ! k) \<and> length (char_chunks s ! k) \<le> 4096"
proof -
  have "k < (length s + 4096 - 1) div 4096"
    using assms by (simp add: length_char_chunks)
  then have "k * 4096 < length s"
    by (intro ceil_div_tight) simp_all
  then show ?thesis
    by (simp add: nth_char_chunks [OF assms])
qed

lemma char_chunk_full:
  assumes "Suc k < length (char_chunks s)"
  shows "length (char_chunks s ! k) = 4096"
proof -
  have "Suc k < (length s + 4096 - 1) div 4096"
    using assms by (simp add: length_char_chunks)
  then have "Suc k * 4096 < length s"
    by (intro ceil_div_tight) simp_all
  moreover have "k < length (char_chunks s)"
    using assms by simp
  ultimately show ?thesis
    by (simp add: nth_char_chunks)
qed

lemma char_chunks_Nil: "char_chunks s = [] \<longleftrightarrow> s = []"
proof
  assume "char_chunks s = []"
  then show "s = []" using concat_char_chunks [of s] by simp
next
  assume "s = []"
  then show "char_chunks s = []"
    by (simp add: char_chunks_def py_range_def MAX_CHUNK_SIZE_TOKENS_def)
qed

subsection \<open>Whitespace normalisation\<close>

lemma collapse_nonspace_prefix:
  "\<forall>x\<in>set w. \<not> isspace x \<Longrightarrow> collapse_whitespace (w @ r) = w @ collapse_whitespace r"
  by (induction w) simp_all

lemma collapse_space_prefix:
  assumes "ws \<noteq> []" and "\<forall>x\<in>set ws. isspace x" and "r = [] \<or> \<not> isspace (hd r)"
  shows "collapse_whitespace (ws @ r) = CHR '' '' # collapse_whitespace r"
proof -
  obtain a as where ws: "ws = a # as"
    using assms(1) by (cases ws) auto
  have "dropWhile isspace (as @ r) = r"
    using assms(2,3) by (cases r) (auto simp: ws dropWhile_append)
  then show ?thesis
    using assms(2) by (simp add: ws)
qed

lemma str_split_dropWhile: "str_split (dropWhile isspace s) = str_split s"
  by (subst str_split.simps, subst (2) str_split.simps) (simp add: dropWhile_idem)

lemma str_split_all_space:
  assumes "\<forall>x\<in>set s. isspace x"
  shows "str_split s = []"
proof -
  have d: "dropWhile isspace s = []"
    using assms by (simp add: dropWhile_isspace_Nil)
  show ?thesis
    by (subst str_split.simps) (simp only: d list.case)
qed

lemma str_split_Cons:
  "\<not> isspace c \<Longrightarrow>
   str_split (c # cs) =
     takeWhile (\<lambda>x. \<not> isspace x) (c # cs) # str_split (dropWhile (\<lambda>x. \<not> isspace x) (c # cs))"
  by (subst str_split.simps) simp

lemma str_join_Cons: "ys \<noteq> [] \<Longrightarrow> str_join sep (x # ys) = x @ sep @ str_join sep ys"
  by (cases ys) simp_all

text \<open>
  On a string that does not begin with whitespace, joining the words with single spaces
  is collapsing the runs of whitespace after dropping the trailing whitespace.
\<close>

lemma join_split_collapse:
  "s = [] \<or> \<not> isspace (hd s) \<Longrightarrow>
   str_join '' '' (str_split s) = collapse_whitespace (rev (dropWhile isspace (rev s)))"
proof (induction "length s" arbitrary: s rule: less_induct)
  case less
  show ?case
  proof (cases s)
    case Nil
    then show ?thesis by (simp add: str_split_all_space)
  next
    case (Cons c cs)
    with less.prems have c: "\<not> isspace c" by simp
    define w where "w = takeWhile (\<lambda>x. \<not> isspace x) s"
    define rest where "rest = dropWhile (\<lambda>x. \<not> isspace x) s"
    have s: "s = w @ rest"
      by (simp add: w_def rest_def)
    have w: "\<forall>x\<in>set w. \<not> isspace x"
      unfolding w_def by (auto dest: set_takeWhileD)
    have wne: "w \<noteq> []"
      using c by (simp add: w_def Cons)
    have split: "str_split s = w # str_split rest"
      using str_split_Cons [OF c, of cs] by (simp add: w_def rest_def Cons)
    show ?thesis
    proof (cases "\<forall>x\<in>set rest. isspace x")
      case True
      then have "rev (dropWhile isspace (rev s)) = rev (dropWhile isspace (rev w))"
        by (simp add: s dropWhile_append)
      also have "\<dots> = w"
      proof -
        have "\<not> isspace (hd (rev w))"
          using w wne by (simp add: hd_rev)
        then have "dropWhile isspace (rev w) = rev w"
          using wne by (cases "rev w") auto
        then show ?thesis by simp
      qed
      finally have "collapse_whitespace (rev (dropWhile isspace (rev s))) = w"
        using collapse_nonspace_prefix [OF w, of "[]"] by simp
      moreover have "str_join '' '' (str_split s) = w"
        by (simp add: split str_split_all_space [OF True])
      ultimately show ?thesis by simp
    next
      case False
      define ws where "ws = takeWhile isspace rest"
      define s' where "s' = dropWhile isspace rest"
      have rest: "rest = ws @ s'"
        by (simp add: ws_def s'_def)
      have s'ne: "s' \<noteq> []"
        using False by (simp add: s'_def dropWhile_isspace_Nil)
      then have hd: "\<not> isspace (hd s')"
        unfolding s'_def by (rule hd_dropWhile)
      have ws: "\<forall>x\<in>set ws. isspace x"
        unfolding ws_def by (auto dest: set_takeWhileD)
      have restne: "rest \<noteq> []"
        using False by auto
      then have "isspace (hd rest)"
        using hd_dropWhile [of "\<lambda>x. \<not> isspace x" s] by (simp add: rest_def)
      then have wsne: "ws \<noteq> []"
        using restne by (cases rest) (auto simp: ws_def)
      have shorter: "length s' < length s"
        using wne by (simp add: s rest)
      have IH: "str_join '' '' (str_split s') =
          collapse_whitespace (rev (dropWhile isspace (rev s')))"
        using less.hyps [OF shorter] hd by simp
      have split': "str_split rest = str_split s'"
        by (simp add: s'_def str_split_dropWhile)
      have "str_split s' \<noteq> []"
        using s'ne hd str_split_Cons [of "hd s'" "tl s'"] by (cases s') auto
      then have join: "str_join '' '' (str_split s) =
          w @ '' '' @ collapse_whitespace (rev (dropWhile isspace (rev s')))"
        by (simp add: split split' str_join_Cons IH)
      have nonspace: "\<not> (\<forall>x\<in>set s'. isspace x)"
        using s'ne hd by (cases s') auto
      let ?t = "rev (dropWhile isspace (rev s'))"
      have strip: "rev (dropWhile isspace (rev s)) = w @ ws @ ?t"
        by (simp add: s rest dropWhile_append nonspace)
      have tne: "?t \<noteq> []"
        by (simp add: dropWhile_isspace_Nil nonspace)
      have "\<exists>u. s' = ?t @ u"
        by (metis rev_append rev_rev_ident takeWhile_dropWhile_id)
      then have "hd ?t = hd s'"
        using tne by (metis hd_append2)
      then have "collapse_whitespace (ws @ ?t) = CHR '' '' # collapse_whitespace ?t"
        using collapse_space_prefix [OF wsne ws, of ?t] hd by simp
      then have "collapse_whitespace (rev (dropWhile isspace (rev s))) =
          w @ '' '' @ collapse_whitespace ?t"
        by (simp add: strip collapse_nonspace_prefix [OF w])
      with join show ?thesis by simp
    qed
  qed
qed

text \<open>
  The normalisation of the source removes leading and trailing whitespace and collapses
  the runs of whitespace between.
\<close>

lemma normalize_text_collapse: "normalize_text s = collapse_whitespace (str_strip s)"
proof -
  let ?d = "dropWhile isspace s"
  have "?d = [] \<or> \<not> isspace (hd ?d)"
    using hd_dropWhile [of isspace s] by blast
  then have "str_join '' '' (str_split ?d) =
      collapse_whitespace (rev (dropWhile isspace (rev ?d)))"
    by (rule join_split_collapse)
  then show ?thesis
    by (simp add: normalize_text_def str_strip_def str_split_dropWhile)
qed

lemma normalize_text_nonblank:
  assumes "str_strip s \<noteq> []"
  shows "normalize_text s \<noteq> []"
  using assms by (cases "str_strip s") (auto simp: normalize_text_collapse)

lemma normalize_text_no_space:
  assumes "s \<noteq> []" and "\<forall>x\<in>set s. \<not> isspace x"
  shows "normalize_text s = s"
proof -
  have "dropWhile isspace s = s"
    using assms by (cases s) auto
  moreover have "dropWhile isspace (rev s) = rev s"
  proof (cases "rev s")
    case Nil
    then show ?thesis by simp
  next
    case (Cons a as)
    then have "a \<in> set s"
      by (metis list.set_intros(1) set_rev)
    then show ?thesis using assms(2) Cons by simp
  qed
  ultimately have "str_strip s = s"
    by (simp add: str_strip_def)
  then show ?thesis
    using collapse_nonspace_prefix [OF assms(2), of "[]"] by (simp add: normalize_text_collapse)
qed

text \<open>
  For a text that is not blank, \<^verbatim>\<open>generate_summary\<close> calls the model on every chunk
  of the normalised text, in order, and joins what the chunks contribute.
\<close>

lemma generate_summary_nonblank:
  assumes "str_strip text \<noteq> []"
  shows "generate_summary (Some summarizer) text =
     (Inr (if str_strip (str_join ''\<newline>''
                (concat (map (\<lambda>ic. chunk_contribution summarizer (fst ic) (snd ic))
                  (enumerate 0 (char_chunks (normalize_text text)))))) \<noteq> []
           then str_strip (str_join ''\<newline>''
                (concat (map (\<lambda>ic. chunk_contribution summarizer (fst ic) (snd ic))
                  (enumerate 0 (char_chunks (normalize_text text))))))
           else ''Could not generate a summary for the provided text.''),
      map (\<lambda>ic. SummarizerCall (fst ic) (snd ic))
        (enumerate 0 (char_chunks (normalize_text text))))"
proof -
  have "char_chunks (normalize_text text) \<noteq> []"
    using normalize_text_nonblank [OF assms] by (simp add: char_chunks_Nil)
  then show ?thesis
    using assms by (simp add: generate_summary_def summarize_loop_closed returns_def)
qed

text \<open>
  Claim C5, as amended. The normalisation removes leading and trailing whitespace and
  collapses every remaining run of whitespace to a single space. The chunks of the
  normalised text are its consecutive slices of 4096 characters: chunk \<open>k\<close> is the
  slice from \<open>4096 k\<close>, it is not empty, every chunk but the last has exactly 4096
  characters, and the chunks concatenated in order are the normalised text. For a text
  that is not blank these chunks, numbered from 0, are what the model is called on.
\<close>

theorem chunking_law:
  "normalize_text text = collapse_whitespace (str_strip text) \<and>
   concat (char_chunks (normalize_text text)) = normalize_text text \<and>
   length (char_chunks (normalize_text text)) = (length (normalize_text text) + 4095) div 4096 \<and>
   (k < length (char_chunks (normalize_text text)) \<longrightarrow>
      char_chunks (normalize_text text) ! k =
        take 4096 (drop (k * 4096) (normalize_text text)) \<and>
      0 < length (char_chunks (normalize_text text) ! k) \<and>
      length (char_chunks (normalize_text text) ! k) \<le> 4096) \<and>
   (Suc k < length (char_chunks (normalize_text text)) \<longrightarrow>
      length (char_chunks (normalize_text text) ! k) = 4096) \<and>
   (str_strip text \<noteq> [] \<longrightarrow>
      snd (generate_summary (Some summarizer) text) =
        map (\<lambda>ic. SummarizerCall (fst ic) (snd ic))
          (enumerate 0 (char_chunks (normalize_text text))))"
proof (intro conjI impI)
  show "normalize_text text = collapse_whitespace (str_strip text)"
    by (rule normalize_text_collapse)
  show "concat (char_chunks (normalize_text text)) = normalize_text text"
    by (rule concat_char_chunks)
  show "length (char_chunks (normalize_text text)) =
      (length (normalize_text text) + 4095) div 4096"
    by (rule length_char_chunks)
next
  assume k: "k < length (char_chunks (normalize_text text))"
  show "char_chunks (normalize_text text) ! k =
      take 4096 (drop (k * 4096) (normalize_text text))"
    by (rule nth_char_chunks [OF k])
  show "0 < length (char_chunks (normalize_text text) ! k)"
    using char_chunk_nonempty [OF k] by simp
  show "length (char_chunks (normalize_text text) ! k) \<le> 4096"
    using char_chunk_nonempty [OF k] by simp
next
  assume "Suc k < length (char_chunks (normalize_text text))"
  then show "length (char_chunks (normalize_text text) ! k) = 4096"
    by (rule char_chunk_full)
next
  assume "str_strip text \<noteq> []"
  then show "snd (generate_summary (Some summarizer) text) =
      map (\<lambda>ic. SummarizerCall (fst ic) (snd ic))
        (enumerate 0 (char_chunks (normalize_text text)))"
    by (simp add: generate_summary_nonblank)
qed

lemma normalize_long_text: "normalize_text long_text = long_text"
  by (rule normalize_text_no_space) (auto simp: long_text_def isspace_def whitespace_def)

lemma char_chunks_long_text: "char_chunks long_text = [replicate 4096 CHR ''a'', ''b'']"
proof -
  have u: "[0..<2] = [0, Suc 0]"
    by (simp add: upt_rec)
  have "length long_text = 4097"
    by (simp add: long_text_def)
  then have "char_chunks long_text =
      map (\<lambda>k. take 4096 (drop (k * 4096) long_text)) [0..<2]"
    by (simp add: char_chunks_def py_range_def slice_def MAX_CHUNK_SIZE_TOKENS_def comp_def)
  also have "\<dots> = [replicate 4096 CHR ''a'', ''b'']"
    unfolding u by (simp add: long_text_def)
  finally show ?thesis .
qed

text \<open>
  The theorem on a short text with whitespace at both ends and runs between the words,
  which is one chunk, and on the text of 4097 characters, which is a chunk of 4096
  characters and a chunk of one.
\<close>

theorem chunking_law_witness:
  "normalize_text [CHR 0x20, CHR ''a'', CHR 0x09, CHR 0x0A, CHR ''b'', CHR 0x20] = ''a b'' \<and>
   char_chunks ''a b'' = [''a b''] \<and>
   snd (generate_summary (Some pipeline_short)
     [CHR 0x20, CHR ''a'', CHR 0x09, CHR 0x0A, CHR ''b'', CHR 0x20]) = [SummarizerCall 0 ''a b''] \<and>
   Suc 0 < length (char_chunks (normalize_text long_text)) \<and>
   length (char_chunks (normalize_text long_text) ! 0) = 4096 \<and>
   char_chunks (normalize_text long_text) ! 1 = ''b'' \<and>
   snd (generate_summary (Some pipeline_short) long_text) =
     [SummarizerCall 0 (replicate 4096 CHR ''a''), SummarizerCall 1 ''b'']"
proof -
  let ?t = "[CHR 0x20, CHR ''a'', CHR 0x09, CHR 0x0A, CHR ''b'', CHR 0x20]"
  note ev = isspace_def whitespace_def str_strip_def
  have strip: "str_strip ?t = [CHR ''a'', CHR 0x09, CHR 0x0A, CHR ''b'']"
    by (simp add: ev)
  have n: "normalize_text ?t = ''a b''"
    using chunking_law [of ?t] by (simp add: strip ev)
  have c: "char_chunks ''a b'' = [''a b'']"
    by (simp add: char_chunks_def py_range_def slice_def MAX_CHUNK_SIZE_TOKENS_def)
  have nb: "str_strip ?t \<noteq> []"
    by (simp add: strip)
  have tr: "snd (generate_summary (Some pipeline_short) ?t) = [SummarizerCall 0 ''a b'']"
    using chunking_law [of ?t _ pipeline_short] nb by (simp add: n c enumerate_eq_zip)
  have len: "Suc 0 < length (char_chunks (normalize_text long_text))"
    by (simp add: normalize_long_text char_chunks_long_text)
  have full: "length (char_chunks (normalize_text long_text) ! 0) = 4096"
    using chunking_law [of long_text 0] len by blast
  have last: "char_chunks (normalize_text long_text) ! 1 = ''b''"
    by (simp add: normalize_long_text char_chunks_long_text)
  have nbl: "str_strip long_text \<noteq> []"
    using normalize_long_text by (auto simp: str_strip_Nil long_text_def isspace_def whitespace_def)
  have trl: "snd (generate_summary (Some pipeline_short) long_text) =
      [SummarizerCall 0 (replicate 4096 CHR ''a''), SummarizerCall 1 ''b'']"
    using chunking_law [of long_text _ pipeline_short] nbl
    by (simp add: normalize_long_text char_chunks_long_text enumerate_eq_zip upt_rec)
  from n c tr len full last trl show ?thesis by blast
qed

text \<open>
  Claim C5 as stated fails in its description of the normalisation: a run of whitespace
  at the beginning or at the end of the text is not collapsed to a single space, it is
  removed.
\<close>

theorem normalization_collapses_every_run_counterexample:
  "normalize_text [CHR 0x20, CHR ''a'', CHR 0x20, CHR 0x20, CHR ''b'', CHR 0x20] = ''a b'' \<and>
   collapse_whitespace [CHR 0x20, CHR ''a'', CHR 0x20, CHR 0x20, CHR ''b'', CHR 0x20] =
     [CHR 0x20, CHR ''a'', CHR 0x20, CHR ''b'', CHR 0x20] \<and>
   normalize_text [CHR 0x20, CHR ''a'', CHR 0x20, CHR 0x20, CHR ''b'', CHR 0x20] \<noteq>
     collapse_whitespace [CHR 0x20, CHR ''a'', CHR 0x20, CHR 0x20, CHR ''b'', CHR 0x20]"
  by (simp add: normalize_text_def str_split.simps isspace_def whitespace_def)

subsection \<open>Summarisation: failing chunks and sentinels\<close>

lemma str_strip_id:
  assumes "s \<noteq> []" and "\<not> isspace (hd s)" and "\<not> isspace (last s)"
  shows "str_strip s = s"
proof -
  have "dropWhile isspace s = s"
    using assms(1,2) by (cases s) auto
  moreover have "dropWhile isspace (rev s) = rev s"
    using assms(1,3) by (cases "rev s") (auto simp: last_rev [symmetric] simp del: last_rev)
  ultimately show ?thesis
    by (simp add: str_strip_def)
qed

lemma hd_str_join: "xs \<noteq> [] \<Longrightarrow> hd xs \<noteq> [] \<Longrightarrow> hd (str_join sep xs) = hd (hd xs)"
  by (induction sep xs rule: str_join.induct) simp_all

lemma str_join_last_nonempty: "xs \<noteq> [] \<Longrightarrow> last xs \<noteq> [] \<Longrightarrow> str_join sep xs \<noteq> []"
  by (induction sep xs rule: str_join.induct) simp_all

lemma last_str_join:
  "xs \<noteq> [] \<Longrightarrow> last xs \<noteq> [] \<Longrightarrow> last (str_join sep xs) = last (last xs)"
proof (induction sep xs rule: str_join.induct)
  case (3 sep x y ys)
  have "str_join sep (y # ys) \<noteq> []"
    using "3.prems" by (intro str_join_last_nonempty) simp_all
  with 3 show ?case by simp
qed simp_all

lemma sublist_str_join: "x \<in> set xs \<Longrightarrow> sublist x (str_join sep xs)"
proof (induction sep xs rule: str_join.induct)
  case (3 sep a b bs)
  show ?case
  proof (cases "x = a")
    case True
    then show ?thesis by simp
  next
    case False
    with 3 have "sublist x (str_join sep (b # bs))" by simp
    then obtain p q where "str_join sep (b # bs) = p @ x @ q"
      by (auto simp: sublist_def)
    then have "str_join sep (a # b # bs) = (a @ sep @ p) @ x @ q"
      by simp
    then show ?thesis unfolding sublist_def by blast
  qed
qed simp_all

lemma sublist_dropWhile:
  assumes "sublist x s" and "x \<noteq> []" and "\<not> P (hd x)"
  shows "sublist x (dropWhile P s)"
proof -
  obtain p q where s: "s = p @ x @ q"
    using assms(1) by (auto simp: sublist_def)
  have x: "dropWhile P (x @ q) = x @ q"
    using assms(2,3) by (cases x) simp_all
  show ?thesis
  proof (cases "\<forall>a\<in>set p. P a")
    case True
    then have "dropWhile P (p @ x @ q) = dropWhile P (x @ q)"
      by (intro dropWhile_append2) simp
    then have "dropWhile P s = [] @ x @ q"
      by (simp only: s x append_Nil)
    then show ?thesis unfolding sublist_def by blast
  next
    case False
    then obtain a where "a \<in> set p" and "\<not> P a" by blast
    then have "dropWhile P (p @ x @ q) = dropWhile P p @ x @ q"
      by (rule dropWhile_append1)
    then show ?thesis unfolding sublist_def s by blast
  qed
qed

text \<open>A string that neither begins nor ends with whitespace survives \<^verbatim>\<open>strip()\<close>.\<close>

lemma sublist_str_strip:
  assumes "sublist x s" and "x \<noteq> []" and "\<not> isspace (hd x)" and "\<not> isspace (last x)"
  shows "sublist x (str_strip s)"
proof -
  have "sublist x (dropWhile isspace s)"
    using assms(1,2,3) by (rule sublist_dropWhile)
  then have "sublist (rev x) (rev (dropWhile isspace s))"
    by (simp add: sublist_rev)
  moreover have "rev x \<noteq> []" and "\<not> isspace (hd (rev x))"
    using assms(2,4) by (simp_all add: hd_rev)
  ultimately have "sublist (rev x) (dropWhile isspace (rev (dropWhile isspace s)))"
    by (rule sublist_dropWhile)
  then have "sublist (rev (rev x)) (rev (dropWhile isspace (rev (dropWhile isspace s))))"
    by (simp only: sublist_rev)
  then show ?thesis
    by (simp add: str_strip_def)
qed

lemma placeholder_shape:
  "chunk_error_placeholder i \<noteq> [] \<and> hd (chunk_error_placeholder i) = CHR ''['' \<and>
   last (chunk_error_placeholder i) = CHR '']''"
  by (simp add: chunk_error_placeholder_def)

lemma not_space_brackets: "\<not> isspace CHR ''['' \<and> \<not> isspace CHR '']''"
  by (simp add: isspace_def whitespace_def)

lemma chunk_contribution_raised:
  assumes "summarizer chunk SUMMARIZER_MAX_LENGTH SUMMARIZER_MIN_LENGTH False = Inl e"
  shows "chunk_contribution summarizer i chunk = [chunk_error_placeholder i]"
  using assms by (simp add: chunk_contribution_def)

lemma enumerate_nth_member:
  assumes "i < length xs"
  shows "(i, xs ! i) \<in> set (enumerate 0 xs)"
  using assms by (metis add_0 nth_enumerate_eq length_enumerate nth_mem)

lemma generate_summary_nonempty:
  "\<exists>s. fst (generate_summary summarizer_opt text) = Inr s \<and> s \<noteq> []"
proof (cases summarizer_opt)
  case None
  then show ?thesis by (simp add: generate_summary_def)
next
  case (Some summarizer)
  show ?thesis
  proof (cases "str_strip text = []")
    case True
    with Some show ?thesis by (simp add: generate_summary_def)
  next
    case False
    show ?thesis
      unfolding Some generate_summary_nonblank [OF False] by simp
  qed
qed

lemma contributions_all_raised:
  assumes "\<forall>c\<in>set chunks. \<exists>e. summarizer c SUMMARIZER_MAX_LENGTH SUMMARIZER_MIN_LENGTH False = Inl e"
  shows "concat (map (\<lambda>ic. chunk_contribution summarizer (fst ic) (snd ic)) (enumerate 0 chunks)) =
     map chunk_error_placeholder [0..<length chunks]"
proof -
  have "map (\<lambda>ic. chunk_contribution summarizer (fst ic) (snd ic)) (enumerate 0 chunks) =
      map (\<lambda>ic. [chunk_error_placeholder (fst ic)]) (enumerate 0 chunks)"
  proof (rule map_cong [OF refl])
    fix ic
    assume mem: "ic \<in> set (enumerate 0 chunks)"
    obtain j c where ic: "ic = (j, c)"
      by (cases ic)
    have "snd ic \<in> set chunks"
      using mem by (auto simp: ic in_set_enumerate_eq)
    then obtain e where
      "summarizer (snd ic) SUMMARIZER_MAX_LENGTH SUMMARIZER_MIN_LENGTH False = Inl e"
      using assms by blast
    then show "chunk_contribution summarizer (fst ic) (snd ic) =
        [chunk_error_placeholder (fst ic)]"
      by (rule chunk_contribution_raised)
  qed
  then have "concat (map (\<lambda>ic. chunk_contribution summarizer (fst ic) (snd ic))
        (enumerate 0 chunks)) =
      concat (map (\<lambda>ic. [chunk_error_placeholder (fst ic)]) (enumerate 0 chunks))"
    by (rule arg_cong)
  also have "\<dots> = map (\<lambda>ic. chunk_error_placeholder (fst ic)) (enumerate 0 chunks)"
    by simp
  also have "\<dots> = map chunk_error_placeholder (map fst (enumerate 0 chunks))"
    by (simp only: map_map comp_def)
  also have "\<dots> = map chunk_error_placeholder [0..<length chunks]"
    by (simp only: map_fst_enumerate add_0)
  finally show ?thesis .
qed

lemma placeholders_join_nonempty:
  assumes "0 < n"
  shows "str_join sep (map chunk_error_placeholder [0..<n]) \<noteq> []"
proof (rule str_join_last_nonempty)
  show "map chunk_error_placeholder [0..<n] \<noteq> []"
    using assms by simp
  have "last (map chunk_error_placeholder [0..<n]) = chunk_error_placeholder (n - 1)"
    using assms by (simp add: last_map)
  then show "last (map chunk_error_placeholder [0..<n]) \<noteq> []"
    using placeholder_shape [of "n - 1"] by simp
qed

lemma placeholders_survive_strip:
  assumes "0 < n"
  shows "str_strip (str_join sep (map chunk_error_placeholder [0..<n])) =
     str_join sep (map chunk_error_placeholder [0..<n])"
proof (rule str_strip_id)
  let ?xs = "map chunk_error_placeholder [0..<n]"
  have ne: "?xs \<noteq> []"
    using assms by simp
  have h: "hd ?xs = chunk_error_placeholder 0"
    using assms by (simp add: hd_map)
  have l: "last ?xs = chunk_error_placeholder (n - 1)"
    using assms by (simp add: last_map)
  show "str_join sep ?xs \<noteq> []"
    using assms by (rule placeholders_join_nonempty)
  show "\<not> isspace (hd (str_join sep ?xs))"
    using ne h placeholder_shape [of 0] not_space_brackets by (simp add: hd_str_join)
  show "\<not> isspace (last (str_join sep ?xs))"
    using ne l placeholder_shape [of "n - 1"] not_space_brackets by (simp add: last_str_join)
qed

text \<open>
  Claim C6, as amended. \<^verbatim>\<open>generate_summary\<close> never returns the empty string. With
  the model loaded: a blank text gives \<^verbatim>\<open>No content to summarize.\<close> without any
  call; for a text that is not blank the model is called on every chunk, and a chunk
  \<open>i\<close> (counted from 0) whose call raises leaves the placeholder
  \<^verbatim>\<open>[Error summarizing part i+1]\<close> in the returned summary; when what the chunks
  contribute, joined by newlines and stripped, is empty, the result is
  \<^verbatim>\<open>Could not generate a summary for the provided text.\<close>; and when the call raises
  on every chunk, the result is the placeholders of all chunks joined by newlines.
\<close>

theorem generate_summary_partial_failure:
  "(\<exists>s. fst (generate_summary summarizer_opt text) = Inr s \<and> s \<noteq> []) \<and>
   (str_strip text = [] \<longrightarrow>
      generate_summary (Some summarizer) text = (Inr ''No content to summarize.'', [])) \<and>
   (str_strip text \<noteq> [] \<longrightarrow>
      snd (generate_summary (Some summarizer) text) =
        map (\<lambda>ic. SummarizerCall (fst ic) (snd ic))
          (enumerate 0 (char_chunks (normalize_text text))) \<and>
      (i < length (char_chunks (normalize_text text)) \<longrightarrow>
       summarizer (char_chunks (normalize_text text) ! i)
         SUMMARIZER_MAX_LENGTH SUMMARIZER_MIN_LENGTH False = Inl e \<longrightarrow>
         (\<exists>r. fst (generate_summary (Some summarizer) text) = Inr r \<and>
              sublist (''[Error summarizing part '' @ str_nat (i + 1) @ '']'') r)) \<and>
      (str_strip (str_join ''\<newline>''
         (concat (map (\<lambda>ic. chunk_contribution summarizer (fst ic) (snd ic))
           (enumerate 0 (char_chunks (normalize_text text)))))) = [] \<longrightarrow>
         fst (generate_summary (Some summarizer) text) =
           Inr ''Could not generate a summary for the provided text.'') \<and>
      ((\<forall>c\<in>set (char_chunks (normalize_text text)).
          \<exists>e'. summarizer c SUMMARIZER_MAX_LENGTH SUMMARIZER_MIN_LENGTH False = Inl e') \<longrightarrow>
         fst (generate_summary (Some summarizer) text) =
           Inr (str_join ''\<newline>''
             (map chunk_error_placeholder [0..<length (char_chunks (normalize_text text))]))))"
proof (intro conjI impI)
  show "\<exists>s. fst (generate_summary summarizer_opt text) = Inr s \<and> s \<noteq> []"
    by (rule generate_summary_nonempty)
next
  assume "str_strip text = []"
  then show "generate_summary (Some summarizer) text = (Inr ''No content to summarize.'', [])"
    by (simp add: generate_summary_def returns_def)
next
  assume "str_strip text \<noteq> []"
  then show "snd (generate_summary (Some summarizer) text) =
      map (\<lambda>ic. SummarizerCall (fst ic) (snd ic))
        (enumerate 0 (char_chunks (normalize_text text)))"
    by (simp add: generate_summary_nonblank)
next
  let ?chunks = "char_chunks (normalize_text text)"
  let ?parts = "concat (map (\<lambda>ic. chunk_contribution summarizer (fst ic) (snd ic))
    (enumerate 0 ?chunks))"
  let ?x = "chunk_error_placeholder i"
  assume nb: "str_strip text \<noteq> []" and i: "i < length ?chunks"
    and raised: "summarizer (?chunks ! i) SUMMARIZER_MAX_LENGTH SUMMARIZER_MIN_LENGTH False = Inl e"
  have "chunk_contribution summarizer i (?chunks ! i) = [?x]"
    using raised by (rule chunk_contribution_raised)
  moreover have "(i, ?chunks ! i) \<in> set (enumerate 0 ?chunks)"
    using i by (rule enumerate_nth_member)
  ultimately have "?x \<in> set ?parts"
    by force
  then have "sublist ?x (str_join ''\<newline>'' ?parts)"
    by (rule sublist_str_join)
  then have sub: "sublist ?x (str_strip (str_join ''\<newline>'' ?parts))"
    using placeholder_shape [of i] not_space_brackets by (intro sublist_str_strip) simp_all
  then have "str_strip (str_join ''\<newline>'' ?parts) \<noteq> []"
    using placeholder_shape [of i] by auto
  then have "fst (generate_summary (Some summarizer) text) =
      Inr (str_strip (str_join ''\<newline>'' ?parts))"
    by (simp add: generate_summary_nonblank [OF nb])
  with sub show "\<exists>r. fst (generate_summary (Some summarizer) text) = Inr r \<and>
      sublist (''[Error summarizing part '' @ str_nat (i + 1) @ '']'') r"
    by (simp add: chunk_error_placeholder_def)
next
  assume "str_strip text \<noteq> []"
    and "str_strip (str_join ''\<newline>''
       (concat (map (\<lambda>ic. chunk_contribution summarizer (fst ic) (snd ic))
         (enumerate 0 (char_chunks (normalize_text text)))))) = []"
  then show "fst (generate_summary (Some summarizer) text) =
      Inr ''Could not generate a summary for the provided text.''"
    by (simp add: generate_summary_nonblank)
next
  let ?chunks = "char_chunks (normalize_text text)"
  assume nb: "str_strip text \<noteq> []"
    and all: "\<forall>c\<in>set ?chunks.
      \<exists>e'. summarizer c SUMMARIZER_MAX_LENGTH SUMMARIZER_MIN_LENGTH False = Inl e'"
  have "?chunks \<noteq> []"
    using normalize_text_nonblank [OF nb] by (simp add: char_chunks_Nil)
  then have n: "0 < length ?chunks"
    by simp
  have "str_join ''\<newline>'' (map chunk_error_placeholder [0..<length ?chunks]) \<noteq> []"
    using n by (rule placeholders_join_nonempty)
  moreover have "concat (map (\<lambda>ic. chunk_contribution summarizer (fst ic) (snd ic))
        (enumerate 0 ?chunks)) = map chunk_error_placeholder [0..<length ?chunks]"
    using all by (rule contributions_all_raised)
  ultimately show "fst (generate_summary (Some summarizer) text) =
      Inr (str_join ''\<newline>'' (map chunk_error_placeholder [0..<length ?chunks]))"
    by (simp add: generate_summary_nonblank [OF nb] placeholders_survive_strip [OF n])
qed

lemma strip_a_b: "str_strip ''a b'' = ''a b''"
  by (simp add: str_strip_def isspace_def whitespace_def)

lemma normalize_a_b: "normalize_text ''a b'' = ''a b''"
  by (simp add: normalize_text_collapse strip_a_b isspace_def whitespace_def)

lemma char_chunks_a_b: "char_chunks ''a b'' = [''a b'']"
  by (simp add: char_chunks_def py_range_def slice_def MAX_CHUNK_SIZE_TOKENS_def)

lemma strip_long_text: "str_strip long_text \<noteq> []"
  by (auto simp: str_strip_Nil long_text_def isspace_def whitespace_def)

lemma first_chunk_not_b: "replicate 4096 CHR ''a'' \<noteq> ''b''"
proof
  assume "replicate 4096 CHR ''a'' = ''b''"
  then have "length (replicate 4096 CHR ''a'') = length ''b''"
    by (rule arg_cong)
  then show False by simp
qed

text \<open>
  The theorem on a blank text; on a text of one chunk with a model that always raises,
  and with a model whose results carry no summary; and on the text of two chunks with a
  model that raises on the second chunk only.
\<close>

theorem generate_summary_partial_failure_witness:
  "generate_summary (Some pipeline_short) [CHR 0x20, CHR 0x0A] =
     (Inr ''No content to summarize.'', []) \<and>
   fst (generate_summary (Some pipeline_raises) ''a b'') = Inr ''[Error summarizing part 1]'' \<and>
   fst (generate_summary (Some pipeline_no_summary) ''a b'') =
     Inr ''Could not generate a summary for the provided text.'' \<and>
   (\<exists>r. fst (generate_summary (Some pipeline_raises_on_b) long_text) = Inr r \<and>
        sublist ''[Error summarizing part 2]'' r) \<and>
   fst (generate_summary (Some pipeline_raises_on_b) long_text) =
     Inr ''short\<newline>[Error summarizing part 2]''"
proof -
  note t = generate_summary_partial_failure
  note ev = isspace_def whitespace_def str_strip_def
  have a: "generate_summary (Some pipeline_short) [CHR 0x20, CHR 0x0A] =
      (Inr ''No content to summarize.'', [])"
    using t [of _ "[CHR 0x20, CHR 0x0A]" pipeline_short] by (simp add: ev)
  have b: "fst (generate_summary (Some pipeline_raises) ''a b'') =
      Inr ''[Error summarizing part 1]''"
    using t [of _ "''a b''" pipeline_raises]
    by (simp add: strip_a_b normalize_a_b char_chunks_a_b pipeline_raises_def
        chunk_error_placeholder_def str_nat_small digit_def)
  have c: "fst (generate_summary (Some pipeline_no_summary) ''a b'') =
      Inr ''Could not generate a summary for the provided text.''"
    using t [of _ "''a b''" pipeline_no_summary]
    by (simp add: strip_a_b normalize_a_b char_chunks_a_b pipeline_no_summary_def
        chunk_contribution_def enumerate_eq_zip ev)
  have d: "\<exists>r. fst (generate_summary (Some pipeline_raises_on_b) long_text) = Inr r \<and>
      sublist ''[Error summarizing part 2]'' r"
    using t [of _ long_text pipeline_raises_on_b 1 OtherException] strip_long_text
    by (simp add: normalize_long_text char_chunks_long_text pipeline_raises_on_b_def
        str_nat_small digit_def)
  have e: "fst (generate_summary (Some pipeline_raises_on_b) long_text) =
      Inr ''short\<newline>[Error summarizing part 2]''"
    by (simp add: generate_summary_nonblank [OF strip_long_text] normalize_long_text
        char_chunks_long_text enumerate_eq_zip upt_rec chunk_contribution_def
        pipeline_raises_on_b_def chunk_error_placeholder_def str_nat_small digit_def ev
        first_chunk_not_b)
  from a b c d e show ?thesis by blast
qed

text \<open>
  Claim C6 as stated fails where it says that a sentinel is returned when every chunk
  fails: when the call raises on every chunk, each chunk contributes its placeholder, the
  joined summary is not empty, and it is returned as it is.
\<close>

theorem every_chunk_fails_counterexample:
  "generate_summary (Some pipeline_raises) ''a b'' =
     (Inr ''[Error summarizing part 1]'', [SummarizerCall 0 ''a b'']) \<and>
   ''[Error summarizing part 1]'' \<noteq> ''Could not generate a summary for the provided text.'' \<and>
   ''[Error summarizing part 1]'' \<noteq> ''No content to summarize.'' \<and>
   ''[Error summarizing part 1]'' \<noteq> ''Could not process text for summarization.'' \<and>
   ''[Error summarizing part 1]'' \<noteq> ''Summary generation service is currently unavailable.''"
proof -
  have nb: "str_strip ''a b'' \<noteq> []"
    by (simp add: strip_a_b)
  show ?thesis
    by (simp add: generate_summary_nonblank [OF nb] normalize_a_b char_chunks_a_b
        enumerate_eq_zip chunk_contribution_def pipeline_raises_def
        chunk_error_placeholder_def str_nat_small digit_def str_strip_def isspace_def
        whitespace_def SUMMARIZER_MAX_LENGTH_def)
qed

subsection \<open>The numbering of the failure markers\<close>

lemma of_char_digit:
  assumes "d < 10"
  shows "of_char (digit d) = 48 + d"
proof -
  have "d \<in> {0, 1, 2, 3, 4, 5, 6, 7, 8, 9}"
    using assms by auto
  then show ?thesis
    by (auto simp: digit_def)
qed

text \<open>\<open>str_nat\<close> prints the decimal numeral of its argument.\<close>

lemma decimal_value_str_nat: "decimal_value (str_nat n) = n"
proof (induction n rule: str_nat.induct)
  case (1 n)
  show ?case
  proof (cases "n < 10")
    case True
    then show ?thesis
      by (simp add: str_nat.simps [of n] decimal_value_def of_char_digit)
  next
    case False
    then have "decimal_value (str_nat (n div 10)) = n div 10"
      by (rule "1.IH")
    then show ?thesis
      using False
      by (simp add: str_nat.simps [of n] decimal_value_def of_char_digit)
  qed
qed

lemma map_enumerate_index:
  "map (\<lambda>ic. f (fst ic) (snd ic)) (enumerate 0 xs) = map (\<lambda>j. f j (xs ! j)) [0..<length xs]"
  by (rule nth_equalityI) (simp_all add: nth_enumerate_eq)

text \<open>
  Claim C10. The page at zero-based index \<open>i\<close> whose \<^verbatim>\<open>try\<close> block raises is
  represented in the result of \<^verbatim>\<open>extract_text_from_pdf\<close> by the marker
  \<^verbatim>\<open>[Error processing page i+1]\<close>, and the chunk at zero-based index \<open>i\<close> whose call
  raises contributes \<^verbatim>\<open>[Error summarizing part i+1]\<close> to the summary parts of
  \<^verbatim>\<open>generate_summary\<close>; the number printed is the decimal numeral of \<open>i + 1\<close>, so the
  first page and the first chunk have number 1.
\<close>

theorem failure_markers_numbered_from_one:
  "decimal_value (str_nat (i + 1)) = i + 1 \<and>
   (fst (page_try_block P L doc i) = Inl e \<longrightarrow>
      fst (process_page P L doc i) =
        Inr (''[Error processing page '' @ str_nat (i + 1) @ '']'' @ ''\<newline>'') \<and>
      (fitz_open P path = Inr doc \<longrightarrow> doc_len P doc = Inr n \<longrightarrow> i < n \<longrightarrow>
         fst (extract_text_from_pdf P L path) =
           Inr (str_strip (concat (map
             (\<lambda>j. if j = i then ''[Error processing page '' @ str_nat (i + 1) @ '']'' @ ''\<newline>''
                  else resolved_page_text P L doc j @ ''\<newline>'') [0..<n]))))) \<and>
   (summarizer chunk SUMMARIZER_MAX_LENGTH SUMMARIZER_MIN_LENGTH False = Inl e' \<longrightarrow>
      fst (summarize_chunk summarizer i chunk summary_parts) =
        Inr (summary_parts @ [''[Error summarizing part '' @ str_nat (i + 1) @ '']''])) \<and>
   (str_strip text \<noteq> [] \<longrightarrow> i < length (char_chunks (normalize_text text)) \<longrightarrow>
    summarizer (char_chunks (normalize_text text) ! i)
      SUMMARIZER_MAX_LENGTH SUMMARIZER_MIN_LENGTH False = Inl e' \<longrightarrow>
      fst (generate_summary (Some summarizer) text) =
        Inr (str_strip (str_join ''\<newline>'' (concat (map
          (\<lambda>j. if j = i then [''[Error summarizing part '' @ str_nat (i + 1) @ '']'']
               else chunk_contribution summarizer j (char_chunks (normalize_text text) ! j))
          [0..<length (char_chunks (normalize_text text))])))))"
proof (intro conjI impI)
  show "decimal_value (str_nat (i + 1)) = i + 1"
    by (rule decimal_value_str_nat)
next
  assume "fst (page_try_block P L doc i) = Inl e"
  then show "fst (process_page P L doc i) =
      Inr (''[Error processing page '' @ str_nat (i + 1) @ '']'' @ ''\<newline>'')"
    by (simp add: process_page_raised page_error_marker_def)
next
  assume raised: "fst (page_try_block P L doc i) = Inl e"
    and opened: "fitz_open P path = Inr doc" "doc_len P doc = Inr n"
  have "map (\<lambda>j. resolved_page_text P L doc j @ ''\<newline>'') [0..<n] =
      map (\<lambda>j. if j = i then ''[Error processing page '' @ str_nat (i + 1) @ '']'' @ ''\<newline>''
               else resolved_page_text P L doc j @ ''\<newline>'') [0..<n]"
    by (rule map_cong [OF refl])
       (simp add: resolved_page_text_raised [OF raised] page_error_marker_def)
  then show "fst (extract_text_from_pdf P L path) =
      Inr (str_strip (concat (map
        (\<lambda>j. if j = i then ''[Error processing page '' @ str_nat (i + 1) @ '']'' @ ''\<newline>''
             else resolved_page_text P L doc j @ ''\<newline>'') [0..<n])))"
    by (simp only: extract_text_from_pdf_opened [OF opened] fst_conv)
next
  assume "summarizer chunk SUMMARIZER_MAX_LENGTH SUMMARIZER_MIN_LENGTH False = Inl e'"
  then show "fst (summarize_chunk summarizer i chunk summary_parts) =
      Inr (summary_parts @ [''[Error summarizing part '' @ str_nat (i + 1) @ '']''])"
    by (simp add: summarize_chunk_closed chunk_contribution_raised chunk_error_placeholder_def)
next
  let ?chunks = "char_chunks (normalize_text text)"
  let ?parts = "concat (map (\<lambda>ic. chunk_contribution summarizer (fst ic) (snd ic))
    (enumerate 0 ?chunks))"
  let ?x = "''[Error summarizing part '' @ str_nat (i + 1) @ '']''"
  assume nb: "str_strip text \<noteq> []" and i: "i < length ?chunks"
    and raised: "summarizer (?chunks ! i) SUMMARIZER_MAX_LENGTH SUMMARIZER_MIN_LENGTH False = Inl e'"
  have x: "chunk_contribution summarizer i (?chunks ! i) = [?x]"
    using raised by (simp add: chunk_contribution_raised chunk_error_placeholder_def)
  have "map (\<lambda>ic. chunk_contribution summarizer (fst ic) (snd ic)) (enumerate 0 ?chunks) =
      map (\<lambda>j. chunk_contribution summarizer j (?chunks ! j)) [0..<length ?chunks]"
    by (rule map_enumerate_index)
  also have "\<dots> = map (\<lambda>j. if j = i then [?x]
      else chunk_contribution summarizer j (?chunks ! j)) [0..<length ?chunks]"
    by (rule map_cong [OF refl]) (simp add: x)
  finally have parts: "?parts = concat (map (\<lambda>j. if j = i then [?x]
      else chunk_contribution summarizer j (?chunks ! j)) [0..<length ?chunks])"
    by (rule arg_cong)
  have "(i, ?chunks ! i) \<in> set (enumerate 0 ?chunks)"
    using i by (rule enumerate_nth_member)
  with x have "?x \<in> set ?parts"
    by force
  then have "sublist ?x (str_join ''\<newline>'' ?parts)"
    by (rule sublist_str_join)
  then have "sublist ?x (str_strip (str_join ''\<newline>'' ?parts))"
    using not_space_brackets by (intro sublist_str_strip) simp_all
  then have "str_strip (str_join ''\<newline>'' ?parts) \<noteq> []"
    by auto
  then have "fst (generate_summary (Some summarizer) text) =
      Inr (str_strip (str_join ''\<newline>'' ?parts))"
    by (simp add: generate_summary_nonblank [OF nb])
  then show "fst (generate_summary (Some summarizer) text) =
      Inr (str_strip (str_join ''\<newline>'' (concat (map
        (\<lambda>j. if j = i then [?x]
             else chunk_contribution summarizer j (?chunks ! j)) [0..<length ?chunks]))))"
    by (simp only: parts)
qed

text \<open>
  The theorem on a document whose first page cannot be loaded, and on the text of two
  chunks with a model that raises on the second chunk.
\<close>

theorem failure_markers_numbered_from_one_witness:
  "decimal_value (str_nat (0 + 1)) = 0 + 1 \<and>
   str_nat (0 + 1) = ''1'' \<and>
   fst (process_page (sample_pdf_libs (Inr [CorruptPage, TextPage ''two'']))
     (scripted_ocr_libs (Inr None) (Inr Unprocessed) ocr_reads_hello)
     [CorruptPage, TextPage ''two''] 0) = Inr ''[Error processing page 1]\<newline>'' \<and>
   fst (extract_text_from_pdf (sample_pdf_libs (Inr [CorruptPage, TextPage ''two'']))
     (scripted_ocr_libs (Inr None) (Inr Unprocessed) ocr_reads_hello) ''book.pdf'') =
     Inr ''[Error processing page 1]\<newline>two'' \<and>
   fst (summarize_chunk pipeline_raises 0 ''a b'' []) = Inr [''[Error summarizing part 1]''] \<and>
   fst (generate_summary (Some pipeline_raises_on_b) long_text) =
     Inr ''short\<newline>[Error summarizing part 2]''"
proof -
  let ?doc = "[CorruptPage, TextPage ''two'']"
  let ?P = "sample_pdf_libs (Inr ?doc)"
  let ?L = "scripted_ocr_libs (Inr None) (Inr Unprocessed) ocr_reads_hello"
  note ev = isspace_def whitespace_def str_strip_def
  have one: "str_nat (0 + 1) = ''1''"
    by (simp add: str_nat_small digit_def)
  have raised: "fst (page_try_block ?P ?L ?doc 0) = Inl OtherException"
    by (simp add: page_try_block_cases sample_pdf_libs_def)
  have opened: "fitz_open ?P ''book.pdf'' = Inr ?doc" "doc_len ?P ?doc = Inr 2"
    by (simp_all add: sample_pdf_libs_def)
  have p1: "resolved_page_text ?P ?L ?doc (Suc 0) = ''two''"
    by (simp add: resolved_page_text_def sample_pdf_libs_def ev)
  have u: "[0..<2] = [0, Suc 0]"
    by (simp add: upt_rec)
  note t = failure_markers_numbered_from_one
  have a: "decimal_value (str_nat (0 + 1)) = 0 + 1"
    by (rule t [of 0, THEN conjunct1])
  have b: "fst (process_page ?P ?L ?doc 0) = Inr ''[Error processing page 1]\<newline>''"
    using t [of 0 ?P ?L ?doc OtherException "''book.pdf''" 2, THEN conjunct2, THEN conjunct1]
      raised
    by (simp add: str_nat_small digit_def)
  have c: "fst (extract_text_from_pdf ?P ?L ''book.pdf'') =
      Inr ''[Error processing page 1]\<newline>two''"
    using t [of 0 ?P ?L ?doc OtherException "''book.pdf''" 2, THEN conjunct2, THEN conjunct1]
      raised opened
    by (simp add: u p1 str_nat_small digit_def ev)
  have d: "fst (summarize_chunk pipeline_raises 0 ''a b'' []) =
      Inr [''[Error summarizing part 1]'']"
    using t [of 0 _ _ _ _ _ _ pipeline_raises "''a b''" OtherException "[]",
        THEN conjunct2, THEN conjunct2, THEN conjunct1]
    by (simp add: pipeline_raises_def str_nat_small digit_def)
  have e: "fst (generate_summary (Some pipeline_raises_on_b) long_text) =
      Inr ''short\<newline>[Error summarizing part 2]''"
    using t [of 1 _ _ _ _ _ _ pipeline_raises_on_b _ OtherException _ long_text,
        THEN conjunct2, THEN conjunct2, THEN conjunct2] strip_long_text
    by (simp add: normalize_long_text char_chunks_long_text u chunk_contribution_def
        pipeline_raises_on_b_def first_chunk_not_b str_nat_small digit_def ev)
  from a one b c d e show ?thesis by blast
qed

end
